theory Spec2Isabelle
  imports Complex_Main "HOL-Library.Char_ord" "HOL-Library.List_Lexorder" "HOL-Library.Multiset"
begin

section \<open>Data model (types.ts)\<close>

text \<open>
  JavaScript numbers are modelled as \<^typ>\<open>real\<close> (coordinates, angles, radii) and the
  group number \<open>numberValue\<close>, which only ever holds small integers, as \<^typ>\<open>int\<close>.
  A \<open>THREE.Vector3\<close> is a triple of reals.  The record fields \<open>id\<close>, \<open>x\<close>, \<open>y\<close>, \<open>z\<close>,
  \<open>group\<close>, \<open>type\<close> and \<open>r\<close> of the source carry a prefix here, since the bare names
  are taken.  Arithmetic is exact: rounding, infinities and \<open>NaN\<close> are not modelled, and
  where the source divides by something that can be zero the model says so.
\<close>

datatype Polarity = YANG | YIN

datatype Group = north | south | east | west | center

record HeTuPoint =
  pid :: string
  px :: real
  py :: real
  pz :: real
  polarity :: Polarity
  pgroup :: Group
  numberValue :: int

datatype AnimationState =
  STATIC | MORPHING | RUNNING | RETURNING | PAUSED
  | HELIX_MORPHING | HELIX_RUNNING | HELIX_PAUSED

datatype GalaxyPointType = CORE | RING | ARM

record GalaxyPointConfig =
  cfg_type :: GalaxyPointType
  cfg_r :: real
  thetaStart :: real
  speedFactor :: real
  zAmp :: real
  zFreq :: real
  yOffset :: "real option"

type_synonym vec3 = "real \<times> real \<times> real"

text \<open>\<open>LoShuPointData\<close>; the optional glyph fields \<open>trigram\<close> and \<open>direction\<close> are
  presentation labels and are left out.\<close>

record LoShuPointData =
  ls_id :: string
  ls_numberValue :: int
  ls_polarity :: Polarity
  planePos :: vec3
  spherePos :: vec3

section \<open>Template strings\<close>

text \<open>Decimal rendering of a loop index inside a template literal.\<close>

definition digitChar :: "nat \<Rightarrow> char" where
  "digitChar d = ''0123456789'' ! (d mod 10)"

fun showNat :: "nat \<Rightarrow> string" where
  "showNat n = (if n < 10 then [digitChar n] else showNat (n div 10) @ [digitChar (n mod 10)])"

declare showNat.simps [simp del]

definition showInt :: "int \<Rightarrow> string" where
  "showInt i = (if i < 0 then ''-'' @ showNat (nat (- i)) else showNat (nat i))"

section \<open>Cubic structure configuration\<close>

definition L :: real where "L = 20"
definition Z_HEAVEN :: real where "Z_HEAVEN = - L / 2"
definition Z_EARTH :: real where "Z_EARTH = L / 2"
definition Z_CENTER :: real where "Z_CENTER = 0"
definition SPACING :: real where "SPACING = 1.2"
definition EDGE_MARGIN :: real where "EDGE_MARGIN = 2.0"
definition TOP_Y :: real where "TOP_Y = L / 2 - EDGE_MARGIN"
definition BOTTOM_Y :: real where "BOTTOM_Y = - (L / 2 - EDGE_MARGIN)"
definition LEFT_X :: real where "LEFT_X = - (L / 2 - EDGE_MARGIN)"
definition RIGHT_X :: real where "RIGHT_X = L / 2 - EDGE_MARGIN"

definition createPoint ::
  "string \<Rightarrow> real \<Rightarrow> real \<Rightarrow> real \<Rightarrow> Polarity \<Rightarrow> Group \<Rightarrow> int \<Rightarrow> HeTuPoint" where
  "createPoint i x y z pol g n =
     \<lparr>pid = i, px = x, py = y, pz = z, polarity = pol, pgroup = g, numberValue = n\<rparr>"

text \<open>Each \<open>for (let i = 0; i < n; i++) points.push(...)\<close> loop is a map over \<open>[0..<n]\<close>;
  the pushes happen in source order, so the catalog is the concatenation of the blocks.\<close>

definition CENTER_ROW_Y :: real where "CENTER_ROW_Y = 3 * SPACING"

definition generateHeTuPoints :: "HeTuPoint list" where
  "generateHeTuPoints =
     map (\<lambda>i. createPoint (''heaven-7-'' @ showNat i) ((real i - 3) * SPACING) TOP_Y Z_HEAVEN YANG south 7) [0..<7]
   @ [createPoint ''heaven-1-0'' 0 BOTTOM_Y Z_HEAVEN YANG north 1]
   @ map (\<lambda>i. createPoint (''heaven-9-'' @ showNat i) RIGHT_X ((real i - 4) * SPACING) Z_HEAVEN YANG west 9) [0..<9]
   @ map (\<lambda>i. createPoint (''heaven-3-'' @ showNat i) LEFT_X ((real i - 1) * SPACING) Z_HEAVEN YANG east 3) [0..<3]
   @ map (\<lambda>i. createPoint (''earth-2-'' @ showNat i) ((real i - 0.5) * SPACING) TOP_Y Z_EARTH YIN south 2) [0..<2]
   @ map (\<lambda>i. createPoint (''earth-6-'' @ showNat i) ((real i - 2.5) * SPACING) BOTTOM_Y Z_EARTH YIN north 6) [0..<6]
   @ map (\<lambda>i. createPoint (''earth-8-'' @ showNat i) LEFT_X ((real i - 3.5) * SPACING) Z_EARTH YIN east 8) [0..<8]
   @ map (\<lambda>i. createPoint (''earth-4-'' @ showNat i) RIGHT_X ((real i - 1.5) * SPACING) Z_EARTH YIN west 4) [0..<4]
   @ [createPoint ''center-5-mid'' 0 0 Z_CENTER YANG center 5,
      createPoint ''center-5-top'' 0 SPACING Z_CENTER YANG center 5,
      createPoint ''center-5-btm'' 0 (- SPACING) Z_CENTER YANG center 5,
      createPoint ''center-5-lft'' (- SPACING) 0 Z_CENTER YANG center 5,
      createPoint ''center-5-rgt'' SPACING 0 Z_CENTER YANG center 5]
   @ map (\<lambda>i. createPoint (''center-10-top-'' @ showNat i) ((real i - 2) * SPACING) CENTER_ROW_Y Z_CENTER YIN center 10) [0..<5]
   @ map (\<lambda>i. createPoint (''center-10-btm-'' @ showNat i) ((real i - 2) * SPACING) (- CENTER_ROW_Y) Z_CENTER YIN center 10) [0..<5]"

section \<open>Vector helpers (the \<open>THREE.Vector3\<close> methods the generators call)\<close>

definition lengthSq :: "vec3 \<Rightarrow> real" where
  "lengthSq v = (case v of (x, y, z) \<Rightarrow> x * x + y * y + z * z)"

definition vlength :: "vec3 \<Rightarrow> real" where
  "vlength v = sqrt (lengthSq v)"

definition multiplyScalar :: "vec3 \<Rightarrow> real \<Rightarrow> vec3" where
  "multiplyScalar v s = (case v of (x, y, z) \<Rightarrow> (x * s, y * s, z * s))"

text \<open>\<open>normalize()\<close> divides by \<open>length() || 1\<close>: the zero vector stays the zero vector.\<close>

definition normalizeV :: "vec3 \<Rightarrow> vec3" where
  "normalizeV v = multiplyScalar v (1 / (if vlength v = 0 then 1 else vlength v))"

definition vadd :: "vec3 \<Rightarrow> vec3 \<Rightarrow> vec3" where
  "vadd a b = (case a of (ax, ay, az) \<Rightarrow> case b of (bx, by, bz) \<Rightarrow> (ax + bx, ay + by, az + bz))"

definition vdot :: "vec3 \<Rightarrow> vec3 \<Rightarrow> real" where
  "vdot a b = (case a of (ax, ay, az) \<Rightarrow> case b of (bx, by, bz) \<Rightarrow> ax * bx + ay * by + az * bz)"

definition lerp :: "vec3 \<Rightarrow> vec3 \<Rightarrow> real \<Rightarrow> vec3" where
  "lerp a b t = (case a of (ax, ay, az) \<Rightarrow> case b of (bx, by, bz) \<Rightarrow>
     (ax + (bx - ax) * t, ay + (by - ay) * t, az + (bz - az) * t))"

section \<open>Lo Shu constants and dot generation\<close>

definition LOSHU_GRID_SIZE :: real where "LOSHU_GRID_SIZE = 12"
definition SPHERE_RADIUS :: real where "SPHERE_RADIUS = 18"
definition R :: real where "R = SPHERE_RADIUS"
definition D :: real where "D = R * 0.577"
definition D_CROSS :: real where "D_CROSS = R * 0.707"

text \<open>The anchor table \<open>LOSHU_ANCHORS\<close>: a key outside 1..9 has no entry.\<close>

definition LOSHU_ANCHORS :: "int \<rightharpoonup> vec3" where
  "LOSHU_ANCHORS n =
     (if n = 9 then Some (0, R, 0)
      else if n = 1 then Some (0, - R, 0)
      else if n = 3 then Some (- D_CROSS, 0, - D_CROSS)
      else if n = 7 then Some (D_CROSS, 0, D_CROSS)
      else if n = 4 then Some (- D, D, - D)
      else if n = 2 then Some (D, D, D)
      else if n = 8 then Some (- D, - D, - D)
      else if n = 6 then Some (D, - D, D)
      else if n = 5 then Some (0, 0, 0)
      else None)"

definition rotate2D :: "real \<Rightarrow> real \<Rightarrow> real \<Rightarrow> real \<times> real" where
  "rotate2D x y angleRad =
     (let c = cos angleRad; s = sin angleRad in (x * c - y * s, x * s + y * c))"

definition gap :: real where "gap = 1.3"

text \<open>The 2D pattern of a number in local space (step 1 of the \<open>numbers.forEach\<close> body).
  The two counting loops of 7 and 9 are written out as their index lists.\<close>

definition loShuOffsets :: "int \<Rightarrow> (real \<times> real) list" where
  "loShuOffsets num =
     (if num = 1 then [(0, 0)]
      else if num = 2 then [(- gap / 1.5, - gap / 1.5), (gap / 1.5, gap / 1.5)]
      else if num = 3 then [(0, gap), (0, 0), (0, - gap)]
      else if num = 4 then [(0, gap * 1.2), (gap * 1.2, 0), (0, - gap * 1.2), (- gap * 1.2, 0)]
      else if num = 5 then [(0, 0), (0, gap * 0.6), (0, - gap * 0.6), (- gap * 0.6, 0), (gap * 0.6, 0)]
      else if num = 6 then
        (let w = gap * 0.8; h = gap * 0.8;
             raw = [(- w, h * 2), (w, h * 2), (w, 0), (w, - h * 2), (- w, - h * 2), (- w, 0)]
         in map (\<lambda>ofs. rotate2D (fst ofs) (snd ofs) (pi / 4)) raw)
      else if num = 7 then map (\<lambda>k. (0, real_of_int k * gap * 0.6)) [3, 2, 1, 0, -1, -2, -3]
      else if num = 8 then
        (let w = gap * 0.8; h = gap * 0.6;
             raw = [(- w, h * 3), (w, h * 3), (w, h), (w, - h), (w, - h * 3), (- w, - h * 3), (- w, - h), (- w, h)]
         in map (\<lambda>ofs. rotate2D (fst ofs) (snd ofs) (- pi / 4)) raw)
      else if num = 9 then map (\<lambda>k. (real_of_int k * gap * 0.6, 0)) [-4, -3, -2, -1, 0, 1, 2, 3, 4]
      else [])"

text \<open>
  Steps 2 and 3 of the body.  The quaternion of the source is
  \<open>setFromUnitVectors((0,0,1), targetNormal)\<close> and is only ever applied to \<open>localVec\<close>;
  both calls belong to the three.js library, so the composed rotation is the parameter
  \<open>applyRot targetNormal localVec\<close>.  For the centre number the source skips the
  quaternion and builds the position from the offsets directly.
\<close>

definition loShuSpherePos :: "(vec3 \<Rightarrow> vec3 \<Rightarrow> vec3) \<Rightarrow> int \<Rightarrow> vec3 \<Rightarrow> real \<times> real \<Rightarrow> vec3" where
  "loShuSpherePos applyRot num anchorPos off =
     (let isCenter = (num = 5) in
      if isCenter then (fst off, snd off, 0)
      else
        let targetNormal = normalizeV anchorPos;
            localVec = multiplyScalar (normalizeV (fst off, snd off, R)) R
        in applyRot targetNormal localVec)"

definition loShuPlanePos :: "int \<Rightarrow> real \<times> real \<Rightarrow> vec3" where
  "loShuPlanePos num off =
     (let gx = (if num = 3 \<or> num = 4 \<or> num = 8 then - 1 else if num = 7 \<or> num = 2 \<or> num = 6 then 1 else 0);
          gy = (if num = 9 \<or> num = 4 \<or> num = 2 then 1 else if num = 1 \<or> num = 8 \<or> num = 6 then - 1 else 0);
          planeBaseX = gx * LOSHU_GRID_SIZE;
          planeBaseY = gy * LOSHU_GRID_SIZE
      in (planeBaseX + fst off, planeBaseY + snd off, 0))"

text \<open>The body of \<open>numbers.forEach\<close> for one number: \<open>None\<close> stands for the \<open>TypeError\<close>
  of reading a missing anchor.\<close>

definition loShuGroup :: "(vec3 \<Rightarrow> vec3 \<Rightarrow> vec3) \<Rightarrow> int \<Rightarrow> LoShuPointData list option" where
  "loShuGroup applyRot num =
     (case LOSHU_ANCHORS num of
        None \<Rightarrow> None
      | Some anchorPos \<Rightarrow>
          let isYang = (num mod 2 \<noteq> 0);
              offsets = loShuOffsets num
          in Some (map (\<lambda>(off, i).
                 \<lparr>ls_id = ''ls-'' @ showInt num @ ''-'' @ showNat i,
                  ls_numberValue = num,
                  ls_polarity = (if isYang then YANG else YIN),
                  planePos = loShuPlanePos num off,
                  spherePos = loShuSpherePos applyRot num anchorPos off\<rparr>)
               (zip offsets [0..<length offsets])))"

definition numbers :: "int list" where
  "numbers = [1, 2, 3, 4, 5, 6, 7, 8, 9]"

definition generateLoShuPoints :: "(vec3 \<Rightarrow> vec3 \<Rightarrow> vec3) \<Rightarrow> LoShuPointData list option" where
  "generateLoShuPoints applyRot = map_option concat (those (map (loShuGroup applyRot) numbers))"

section \<open>Sorting helper\<close>

text \<open>\<open>Array.prototype.indexOf\<close>: the first position of the value, \<open>-1\<close> when absent.\<close>

fun indexOf :: "int list \<Rightarrow> int \<Rightarrow> int" where
  "indexOf [] v = - 1"
| "indexOf (x # xs) v =
     (if x = v then 0 else (let i = indexOf xs v in if i = - 1 then - 1 else i + 1))"

text \<open>
  \<open>String.prototype.localeCompare\<close>, as the lexicographic order of the character codes.
  The identifiers of the catalog consist of lower-case letters, digits and hyphens, on
  which the collation order and the code order agree.
\<close>

definition localeCompare :: "string \<Rightarrow> string \<Rightarrow> int" where
  "localeCompare a b = (if a < b then - 1 else if b < a then 1 else 0)"

definition descendingGroups :: "int list" where
  "descendingGroups = [4, 6, 9]"

text \<open>The comparator passed to \<open>filtered.sort\<close>.\<close>

definition compareHeTu :: "int list \<Rightarrow> HeTuPoint \<Rightarrow> HeTuPoint \<Rightarrow> int" where
  "compareHeTu sequence a b =
     (let idxA = indexOf sequence (numberValue a);
          idxB = indexOf sequence (numberValue b)
      in if idxA \<noteq> idxB then idxA - idxB
         else if numberValue a \<in> set descendingGroups then localeCompare (pid b) (pid a)
         else localeCompare (pid a) (pid b))"

text \<open>
  \<open>Array.prototype.sort\<close> is a stable sort: elements the comparator calls equal keep
  their order.  Insertion from the right end, each element going in front of the first
  one it does not exceed, computes that ordering.
\<close>

fun insertBy :: "('a \<Rightarrow> 'a \<Rightarrow> int) \<Rightarrow> 'a \<Rightarrow> 'a list \<Rightarrow> 'a list" where
  "insertBy cmp x [] = [x]"
| "insertBy cmp x (y # ys) = (if cmp x y \<le> 0 then x # y # ys else y # insertBy cmp x ys)"

definition sortBy :: "('a \<Rightarrow> 'a \<Rightarrow> int) \<Rightarrow> 'a list \<Rightarrow> 'a list" where
  "sortBy cmp xs = foldr (insertBy cmp) xs []"

definition sortHeTuPoints :: "HeTuPoint list \<Rightarrow> int list \<Rightarrow> HeTuPoint list" where
  "sortHeTuPoints points sequence =
     (let filtered = filter (\<lambda>p. numberValue p \<in> set sequence) points
      in sortBy (compareHeTu sequence) filtered)"

section \<open>Galaxy animation configuration\<close>

text \<open>A \<open>Record<string, GalaxyPointConfig>\<close> is a partial map; the assignments
  \<open>map[p.id] = ...\<close> of one \<open>forEach\<close> are collected as a list of entries in iteration
  order and then stored one after the other, a later entry replacing an earlier one.\<close>

type_synonym ConfigMap = "string \<rightharpoonup> GalaxyPointConfig"

definition assignAll :: "(string \<times> GalaxyPointConfig) list \<Rightarrow> ConfigMap \<Rightarrow> ConfigMap" where
  "assignAll es m = fold (\<lambda>e acc. acc(fst e \<mapsto> snd e)) es m"

text \<open>\<open>Math.atan2(y, x)\<close> on finite arguments (with both zero it is \<open>0\<close>).\<close>

definition atan2 :: "real \<Rightarrow> real \<Rightarrow> real" where
  "atan2 y x =
     (if 0 < x then arctan (y / x)
      else if x < 0 then (if 0 \<le> y then arctan (y / x) + pi else arctan (y / x) - pi)
      else if 0 < y then pi / 2
      else if y < 0 then - pi / 2
      else 0)"

definition ringRadius :: real where "ringRadius = 2.5"

definition galaxyCore :: "HeTuPoint list \<Rightarrow> (string \<times> GalaxyPointConfig) list" where
  "galaxyCore points =
     (let centerCore = filter (\<lambda>p. pgroup p = center \<and> polarity p = YANG) points
      in map (\<lambda>p.
           let r = sqrt (px p * px p + py p * py p);
               theta = atan2 (py p) (px p)
           in (pid p, \<lparr>cfg_type = CORE, cfg_r = r, thetaStart = theta, speedFactor = 0,
                       zAmp = 0, zFreq = 0, yOffset = None\<rparr>)) centerCore)"

definition galaxyRing :: "HeTuPoint list \<Rightarrow> (string \<times> GalaxyPointConfig) list" where
  "galaxyRing points =
     (let earthPoints = filter (\<lambda>p. pgroup p = center \<and> polarity p = YIN) points
      in map (\<lambda>(p, i).
           let angle = (real i / real (length earthPoints)) * pi * 2
           in (pid p, \<lparr>cfg_type = RING, cfg_r = ringRadius, thetaStart = angle, speedFactor = 0,
                       zAmp = 0, zFreq = 0, yOffset = None\<rparr>))
         (zip earthPoints [0..<length earthPoints]))"

definition yangSequenceValues :: "int list" where "yangSequenceValues = [1, 3, 7, 9]"
definition yinSequenceValues :: "int list" where "yinSequenceValues = [2, 4, 6, 8]"

definition SPIRAL_START_R :: real where "SPIRAL_START_R = 5.8"
definition SPIRAL_GROWTH_PER_RAD :: real where "SPIRAL_GROWTH_PER_RAD = 2.8"
definition DOT_ARC_SPACING :: real where "DOT_ARC_SPACING = 0.8"
definition GROUP_ARC_GAP :: real where "GROUP_ARC_GAP = 1.8"

text \<open>
  The body of \<open>armPoints.forEach((p, i) => ...)\<close> in \<open>createSpiralArm\<close>; the mutable
  locals \<open>currentPhi\<close> and \<open>lastNumberVal\<close> and the index \<open>i\<close> are threaded through.
  The divisor \<open>r\<close> is at least \<open>SPIRAL_START_R\<close> (lemma \<open>spiralArmLoop_r_pos\<close> below
  makes that precise), so the division is never by zero.
\<close>

fun spiralArmLoop ::
  "real \<Rightarrow> real \<Rightarrow> int \<Rightarrow> nat \<Rightarrow> HeTuPoint list \<Rightarrow> (string \<times> GalaxyPointConfig) list" where
  "spiralArmLoop armOffsetAngle currentPhi lastNumberVal i [] = []"
| "spiralArmLoop armOffsetAngle currentPhi lastNumberVal i (p # ps) =
     (let r = SPIRAL_START_R + SPIRAL_GROWTH_PER_RAD * currentPhi;
          gap = (if lastNumberVal \<noteq> - 1
                 then (if numberValue p \<noteq> lastNumberVal then GROUP_ARC_GAP else DOT_ARC_SPACING)
                 else 0);
          currentPhi' = (if 0 < i then currentPhi + gap / r else currentPhi);
          finalR = SPIRAL_START_R + SPIRAL_GROWTH_PER_RAD * currentPhi';
          finalTheta = armOffsetAngle - currentPhi'
      in (pid p, \<lparr>cfg_type = ARM, cfg_r = finalR, thetaStart = finalTheta, speedFactor = 0.8,
                  zAmp = 0.0 + (currentPhi' * 0.2), zFreq = 1, yOffset = None\<rparr>)
         # spiralArmLoop armOffsetAngle currentPhi' (numberValue p) (i + 1) ps)"

definition createSpiralArm ::
  "HeTuPoint list \<Rightarrow> int list \<Rightarrow> real \<Rightarrow> (string \<times> GalaxyPointConfig) list" where
  "createSpiralArm points targetSequence armOffsetAngle =
     (let armPoints = sortHeTuPoints points targetSequence
      in spiralArmLoop armOffsetAngle 0 (- 1) 0 armPoints)"

definition generateGalaxyMap :: "HeTuPoint list \<Rightarrow> ConfigMap" where
  "generateGalaxyMap points =
     assignAll (createSpiralArm points yinSequenceValues (pi / 2))
       (assignAll (createSpiralArm points yangSequenceValues (- pi / 2))
         (assignAll (galaxyRing points)
           (assignAll (galaxyCore points) Map.empty)))"

section \<open>Helix animation configuration\<close>

definition helixCore :: "HeTuPoint list \<Rightarrow> (string \<times> GalaxyPointConfig) list" where
  "helixCore points =
     (let centerCore = filter (\<lambda>p. pgroup p = center \<and> polarity p = YANG) points
      in map (\<lambda>p.
           let r = sqrt (px p * px p + py p * py p);
               theta = atan2 (py p) (px p)
           in (pid p, \<lparr>cfg_type = CORE, cfg_r = r, thetaStart = theta, speedFactor = 0,
                       zAmp = 0, zFreq = 0, yOffset = Some 0\<rparr>)) centerCore)"

definition helixRing :: "HeTuPoint list \<Rightarrow> (string \<times> GalaxyPointConfig) list" where
  "helixRing points =
     (let centerRing = filter (\<lambda>p. pgroup p = center \<and> polarity p = YIN) points
      in map (\<lambda>(p, i).
           let angle = (real i / real (length centerRing)) * pi * 2
           in (pid p, \<lparr>cfg_type = RING, cfg_r = ringRadius, thetaStart = angle, speedFactor = 0,
                       zAmp = 0, zFreq = 0, yOffset = Some 0\<rparr>))
         (zip centerRing [0..<length centerRing]))"

definition HELIX_R_BOTTOM :: real where "HELIX_R_BOTTOM = 5.5"
definition HELIX_R_TOP :: real where "HELIX_R_TOP = 15.0"
definition HELIX_DOT_STEP :: real where "HELIX_DOT_STEP = 0.8"
definition HELIX_GROUP_GAP :: real where "HELIX_GROUP_GAP = 3.5"
definition RAD_PER_UNIT_HEIGHT :: real where "RAD_PER_UNIT_HEIGHT = 0.35"

text \<open>First pass of \<open>assignHelixPosition\<close>: the total height of the strand.\<close>

fun totalHeightLoop :: "real \<Rightarrow> int \<Rightarrow> HeTuPoint list \<Rightarrow> real" where
  "totalHeightLoop totalH tempLastVal [] = totalH"
| "totalHeightLoop totalH tempLastVal (p # ps) =
     totalHeightLoop
       (if tempLastVal \<noteq> - 1
        then totalH + (if numberValue p \<noteq> tempLastVal then HELIX_GROUP_GAP else HELIX_DOT_STEP)
        else totalH)
       (numberValue p) ps"

text \<open>Second pass: the entry of every strand point.\<close>

fun helixLoop ::
  "real \<Rightarrow> real \<Rightarrow> real \<Rightarrow> real \<Rightarrow> int \<Rightarrow> HeTuPoint list \<Rightarrow> (string \<times> GalaxyPointConfig) list" where
  "helixLoop phaseOffset speedDir totalH currentH lastNumberVal [] = []"
| "helixLoop phaseOffset speedDir totalH currentH lastNumberVal (p # ps) =
     (let startY = - totalH / 2;
          currentH' = (if lastNumberVal \<noteq> - 1
                       then (if numberValue p \<noteq> lastNumberVal
                             then currentH + HELIX_GROUP_GAP else currentH + HELIX_DOT_STEP)
                       else currentH);
          progress = (if 0 < totalH then currentH' / totalH else 0.5);
          currentR = HELIX_R_BOTTOM + (HELIX_R_TOP - HELIX_R_BOTTOM) * progress;
          finalY = startY + currentH';
          angle = phaseOffset + (currentH' * RAD_PER_UNIT_HEIGHT)
      in (pid p, \<lparr>cfg_type = ARM, cfg_r = currentR, thetaStart = angle, speedFactor = speedDir,
                  zAmp = 0, zFreq = 0, yOffset = Some finalY\<rparr>)
         # helixLoop phaseOffset speedDir totalH currentH' (numberValue p) ps)"

definition assignHelixPosition ::
  "HeTuPoint list \<Rightarrow> int list \<Rightarrow> real \<Rightarrow> real \<Rightarrow> (string \<times> GalaxyPointConfig) list" where
  "assignHelixPosition points sequence phaseOffset speedDir =
     (let strandPoints = sortHeTuPoints points sequence;
          totalH = totalHeightLoop 0 (- 1) strandPoints
      in helixLoop phaseOffset speedDir totalH 0 (- 1) strandPoints)"

definition generateHelixMap :: "HeTuPoint list \<Rightarrow> ConfigMap" where
  "generateHelixMap points =
     assignAll (assignHelixPosition points [2, 4, 6, 8] pi (- 1.0))
       (assignAll (assignHelixPosition points [1, 3, 7, 9] 0 (- 1.0))
         (assignAll (helixRing points)
           (assignAll (helixCore points) Map.empty)))"

section \<open>Interpolation engine (HeTuScene.tsx)\<close>

definition SPIN_SIGN :: real where "SPIN_SIGN = - 1"
definition GLOBAL_SPEED :: real where "GLOBAL_SPEED = 1.0"

definition getTargetPosition :: "GalaxyPointConfig \<Rightarrow> real \<Rightarrow> vec3" where
  "getTargetPosition gConfig time =
     (let thetaNow = thetaStart gConfig + (SPIN_SIGN * speedFactor gConfig * time)
      in case yOffset gConfig of
           Some yo \<Rightarrow>
             (let x = cfg_r gConfig * cos thetaNow;
                  z = cfg_r gConfig * sin thetaNow;
                  y = yo
              in (x, y, z))
         | None \<Rightarrow>
             if cfg_type gConfig = CORE \<or> cfg_type gConfig = RING then
               (let tx = cfg_r gConfig * cos (thetaStart gConfig);
                    ty = cfg_r gConfig * sin (thetaStart gConfig)
                in (tx, ty, 0))
             else
               (let x = cfg_r gConfig * cos thetaNow;
                    y = cfg_r gConfig * sin thetaNow;
                    z = sin (thetaNow * zFreq gConfig) * zAmp gConfig
                in (x, y, z)))"

datatype Mode = GALAXY | HELIX | NONE

text \<open>
  The body of \<open>points.forEach\<close> in the frame callback of \<open>AnimatedPoints\<close>: the position
  handed to \<open>mesh.position.set\<close>.  \<open>None\<close> is the \<open>TypeError\<close> raised when the map has no
  entry for the point and \<open>getTargetPosition\<close> reads a field of \<open>undefined\<close>.
\<close>

definition updatePoint ::
  "Mode \<Rightarrow> ConfigMap \<Rightarrow> ConfigMap \<Rightarrow> real \<Rightarrow> real \<Rightarrow> HeTuPoint \<Rightarrow> vec3 option" where
  "updatePoint modeRef galaxyMap helixMap timeRef morphRef pt =
     (let cx = px pt; cy = py pt; cz = pz pt
      in case (if modeRef = HELIX then helixMap (pid pt) else galaxyMap (pid pt)) of
           None \<Rightarrow> None
         | Some gConfig \<Rightarrow>
             (case getTargetPosition gConfig timeRef of
                (tx, ty, tz) \<Rightarrow>
                  Some (cx + (tx - cx) * morphRef,
                        cy + (ty - cy) * morphRef,
                        cz + (tz - cz) * morphRef)))"

section \<open>He Tu animation state machine (App.tsx)\<close>

text \<open>
  Every \<open>setTimeout\<close> of the handlers registers one of three callbacks, each a guarded
  state update \<open>curr => curr === A ? B : curr\<close>.  The pending callbacks are kept with
  their deadlines (milliseconds of a logical clock \<open>now\<close>).  \<open>lastMode\<close> reuses the type
  of the scene's mode reference; the handlers only ever store \<open>GALAXY\<close> or \<open>HELIX\<close> in it.
\<close>

datatype TimerKind = ToRunning | ToHelixRunning | ToStatic

fun timerUpdater :: "TimerKind \<Rightarrow> AnimationState \<Rightarrow> AnimationState" where
  "timerUpdater ToRunning cur = (if cur = MORPHING then RUNNING else cur)"
| "timerUpdater ToHelixRunning cur = (if cur = HELIX_MORPHING then HELIX_RUNNING else cur)"
| "timerUpdater ToStatic cur = (if cur = RETURNING then STATIC else cur)"

record AppState =
  animState :: AnimationState
  lastMode :: Mode
  now :: nat
  timers :: "(nat \<times> TimerKind) list"

definition setTimeout :: "TimerKind \<Rightarrow> nat \<Rightarrow> AppState \<Rightarrow> AppState" where
  "setTimeout k delay s = s\<lparr>timers := timers s @ [(now s + delay, k)]\<rparr>"

definition handleGalaxyClick :: "AppState \<Rightarrow> AppState" where
  "handleGalaxyClick s =
     (if animState s = HELIX_RUNNING \<or> animState s = HELIX_PAUSED \<or> animState s = HELIX_MORPHING
      then setTimeout ToRunning 1000 (s\<lparr>lastMode := GALAXY, animState := MORPHING\<rparr>)
      else
        let s1 = s\<lparr>lastMode := GALAXY\<rparr> in
        if animState s = STATIC \<or> animState s = RETURNING
        then setTimeout ToRunning 1000 (s1\<lparr>animState := MORPHING\<rparr>)
        else if animState s = RUNNING then s1\<lparr>animState := PAUSED\<rparr>
        else if animState s = PAUSED then s1\<lparr>animState := RUNNING\<rparr>
        else s1)"

definition handleHelixClick :: "AppState \<Rightarrow> AppState" where
  "handleHelixClick s =
     (if animState s = RUNNING \<or> animState s = PAUSED \<or> animState s = MORPHING
      then setTimeout ToHelixRunning 1000 (s\<lparr>lastMode := HELIX, animState := HELIX_MORPHING\<rparr>)
      else
        let s1 = s\<lparr>lastMode := HELIX\<rparr> in
        if animState s = STATIC \<or> animState s = RETURNING
        then setTimeout ToHelixRunning 1000 (s1\<lparr>animState := HELIX_MORPHING\<rparr>)
        else if animState s = HELIX_RUNNING then s1\<lparr>animState := HELIX_PAUSED\<rparr>
        else if animState s = HELIX_PAUSED then s1\<lparr>animState := HELIX_RUNNING\<rparr>
        else s1)"

definition handleReset :: "AppState \<Rightarrow> AppState" where
  "handleReset s =
     (if animState s \<noteq> STATIC then
        let s1 = (if animState s = HELIX_RUNNING \<or> animState s = HELIX_MORPHING
                     \<or> animState s = HELIX_PAUSED
                  then s\<lparr>lastMode := HELIX\<rparr> else s\<lparr>lastMode := GALAXY\<rparr>)
        in setTimeout ToStatic 1000 (s1\<lparr>animState := RETURNING\<rparr>)
      else s)"

text \<open>
  Time passing with no input: the callbacks whose deadline is reached run in deadline
  order (registration order among equal deadlines), each on the state left by the one
  before; the others stay pending.
\<close>

definition elapse :: "nat \<Rightarrow> AppState \<Rightarrow> AppState" where
  "elapse d s =
     (let t = now s + d;
          due = sort_key fst (filter (\<lambda>e. fst e \<le> t) (timers s));
          rest = filter (\<lambda>e. \<not> fst e \<le> t) (timers s)
      in s\<lparr>animState := fold (\<lambda>e cur. timerUpdater (snd e) cur) due (animState s),
            now := t, timers := rest\<rparr>)"

section \<open>Lo Shu energy path\<close>

definition getPos :: "real \<Rightarrow> vec3 \<Rightarrow> vec3" where
  "getPos radiusScale anchor =
     (if lengthSq anchor < 0.1 then (0, 0, 0)
      else multiplyScalar (normalizeV anchor) (SPHERE_RADIUS * radiusScale))"

text \<open>
  One iteration of the inner loop: the sample of a leg at fraction \<open>t\<close>.  The result is
  \<open>None\<close> where the source divides by a zero \<open>sinTheta\<close>: the weights are then not
  finite numbers and neither is the vector that is pushed.
\<close>

definition legSample :: "real \<Rightarrow> vec3 \<Rightarrow> vec3 \<Rightarrow> real \<Rightarrow> vec3 option" where
  "legSample radiusScale startAnchor endAnchor t =
     (let isStartCenter = lengthSq startAnchor < 0.1;
          isEndCenter = lengthSq endAnchor < 0.1;
          vStart = getPos radiusScale startAnchor;
          vEnd = getPos radiusScale endAnchor
      in if isStartCenter \<or> isEndCenter then Some (lerp vStart vEnd t)
         else
           let nStart = normalizeV vStart;
               nEnd = normalizeV vEnd;
               dot = max (- 1) (min 1 (vdot nStart nEnd));
               theta = arccos dot
           in if \<bar>theta\<bar> < 0.0001
              then Some (multiplyScalar (normalizeV (lerp nStart nEnd t)) (SPHERE_RADIUS * radiusScale))
              else
                let sinTheta = sin theta in
                if sinTheta = 0 then None
                else
                  let w1 = sin ((1 - t) * theta) / sinTheta;
                      w2 = sin (t * theta) / sinTheta;
                      vec = vadd (multiplyScalar nStart w1) (multiplyScalar nEnd w2)
                  in Some (multiplyScalar (normalizeV vec) (SPHERE_RADIUS * radiusScale)))"

text \<open>
  The whole path.  The outer \<open>None\<close> is the \<open>TypeError\<close> of a sequence that is empty or
  names a number without an anchor (every element of the sequence is looked up, either
  as an end of a leg or as the final point).
\<close>

definition generateLoShuEnergyPath :: "int list \<Rightarrow> real \<Rightarrow> nat \<Rightarrow> vec3 option list option" where
  "generateLoShuEnergyPath sequence radiusScale segmentsPerLeg =
     (case those (map LOSHU_ANCHORS sequence) of
        None \<Rightarrow> None
      | Some anchors \<Rightarrow>
          if anchors = [] then None
          else Some (concat (map (\<lambda>(startAnchor, endAnchor).
                         map (\<lambda>j. legSample radiusScale startAnchor endAnchor
                                    (real j / real segmentsPerLeg)) [0..<segmentsPerLeg])
                       (zip anchors (tl anchors)))
                     @ [Some (getPos radiusScale (last anchors))]))"

section \<open>The arm and strand recurrences in the specification's words\<close>





section \<open>Catalog cardinalities\<close>

lemmas cube_consts =
  L_def Z_HEAVEN_def Z_EARTH_def Z_CENTER_def SPACING_def EDGE_MARGIN_def
  TOP_Y_def BOTTOM_Y_def LEFT_X_def RIGHT_X_def CENTER_ROW_Y_def

lemma showNat_small: "n < 10 \<Longrightarrow> showNat n = [''0123456789'' ! n]"
  by (simp add: showNat.simps digitChar_def)

lemma hetu_heaven_face:
  "map numberValue (filter (\<lambda>p. pz p = Z_HEAVEN \<and> pgroup p = south) generateHeTuPoints) = replicate 7 7"
  "map numberValue (filter (\<lambda>p. pz p = Z_HEAVEN \<and> pgroup p = north) generateHeTuPoints) = replicate 1 1"
  "map numberValue (filter (\<lambda>p. pz p = Z_HEAVEN \<and> pgroup p = west) generateHeTuPoints) = replicate 9 9"
  "map numberValue (filter (\<lambda>p. pz p = Z_HEAVEN \<and> pgroup p = east) generateHeTuPoints) = replicate 3 3"
  by (simp_all add: generateHeTuPoints_def createPoint_def cube_consts numeral_eq_Suc)

lemma hetu_earth_face:
  "map numberValue (filter (\<lambda>p. pz p = Z_EARTH \<and> pgroup p = south) generateHeTuPoints) = replicate 2 2"
  "map numberValue (filter (\<lambda>p. pz p = Z_EARTH \<and> pgroup p = north) generateHeTuPoints) = replicate 6 6"
  "map numberValue (filter (\<lambda>p. pz p = Z_EARTH \<and> pgroup p = east) generateHeTuPoints) = replicate 8 8"
  "map numberValue (filter (\<lambda>p. pz p = Z_EARTH \<and> pgroup p = west) generateHeTuPoints) = replicate 4 4"
  by (simp_all add: generateHeTuPoints_def createPoint_def cube_consts numeral_eq_Suc)

lemma hetu_center_layer:
  "map numberValue (filter (\<lambda>p. pz p = Z_CENTER \<and> pgroup p = center) generateHeTuPoints)
     = replicate 5 5 @ replicate 10 10"
  "length (filter (\<lambda>p. numberValue p = 10 \<and> py p = CENTER_ROW_Y) generateHeTuPoints) = 5"
  "length (filter (\<lambda>p. numberValue p = 10 \<and> py p = - CENTER_ROW_Y) generateHeTuPoints) = 5"
  by (simp_all add: generateHeTuPoints_def createPoint_def cube_consts numeral_eq_Suc)

lemma hetu_group_sizes:
  "map (\<lambda>k. length (filter (\<lambda>p. numberValue p = k) generateHeTuPoints)) [1, 2, 3, 4, 5, 6, 7, 8, 9, 10]
     = [1, 2, 3, 4, 5, 6, 7, 8, 9, 10]"
  by (simp add: generateHeTuPoints_def createPoint_def)

lemma loShuGroup_values:
  "num \<in> set numbers \<Longrightarrow>
     \<exists>g. loShuGroup rot num = Some g \<and> (\<forall>p \<in> set g. ls_numberValue p = num)"
  by (auto simp add: loShuGroup_def LOSHU_ANCHORS_def numbers_def Let_def)

lemma loShu_values:
  "\<exists>ps. generateLoShuPoints rot = Some ps
     \<and> map ls_numberValue ps = concat (map (\<lambda>k. replicate (nat k) k) numbers)"
  by (simp add: generateLoShuPoints_def numbers_def loShuGroup_def LOSHU_ANCHORS_def
        loShuOffsets_def Let_def numeral_eq_Suc)

lemma count_via_map: "length (filter (\<lambda>p. f p = k) ps) = count_list (map f ps) k"
  by (induction ps) auto

lemma loShu_counts:
  "\<exists>ps. generateLoShuPoints rot = Some ps
     \<and> set (map ls_numberValue ps) = set numbers
     \<and> map (\<lambda>k. int (length (filter (\<lambda>p. ls_numberValue p = k) ps))) numbers = numbers"
proof -
  obtain ps where ps: "generateLoShuPoints rot = Some ps"
    and vs: "map ls_numberValue ps = concat (map (\<lambda>k. replicate (nat k) k) numbers)"
    using loShu_values by blast
  have "set (map ls_numberValue ps) = set numbers"
    unfolding vs by (auto simp add: numbers_def)
  moreover have "map (\<lambda>k. int (length (filter (\<lambda>p. ls_numberValue p = k) ps))) numbers = numbers"
    unfolding count_via_map vs by (simp add: numbers_def numeral_eq_Suc)
  ultimately show ?thesis using ps by blast
qed

text \<open>
  Claim C1.  The generated catalogs have the traditional group sizes.  He Tu: on the
  heaven face (\<open>z = Z_HEAVEN\<close>) the south, north, west and east edges hold exactly the
  groups 7, 1, 9 and 3 with 7, 1, 9 and 3 points; on the earth face (\<open>z = Z_EARTH\<close>) the
  south, north, east and west edges hold the groups 2, 6, 8 and 4 with 2, 6, 8 and 4
  points; the centre layer holds group 5 with 5 points and group 10 with 10 points, five
  in the row \<open>y = CENTER_ROW_Y\<close> and five in the row \<open>y = - CENTER_ROW_Y\<close>; every group
  \<open>k\<close> of 1..10 has \<open>k\<close> points in the whole catalog.  Luo Shu (for any rotation routine):
  the group values are exactly 1..9 and group \<open>k\<close> has exactly \<open>k\<close> points.
\<close>

theorem catalog_group_cardinalities:
  "map numberValue (filter (\<lambda>p. pz p = Z_HEAVEN \<and> pgroup p = south) generateHeTuPoints) = replicate 7 7
   \<and> map numberValue (filter (\<lambda>p. pz p = Z_HEAVEN \<and> pgroup p = north) generateHeTuPoints) = replicate 1 1
   \<and> map numberValue (filter (\<lambda>p. pz p = Z_HEAVEN \<and> pgroup p = west) generateHeTuPoints) = replicate 9 9
   \<and> map numberValue (filter (\<lambda>p. pz p = Z_HEAVEN \<and> pgroup p = east) generateHeTuPoints) = replicate 3 3
   \<and> map numberValue (filter (\<lambda>p. pz p = Z_EARTH \<and> pgroup p = south) generateHeTuPoints) = replicate 2 2
   \<and> map numberValue (filter (\<lambda>p. pz p = Z_EARTH \<and> pgroup p = north) generateHeTuPoints) = replicate 6 6
   \<and> map numberValue (filter (\<lambda>p. pz p = Z_EARTH \<and> pgroup p = east) generateHeTuPoints) = replicate 8 8
   \<and> map numberValue (filter (\<lambda>p. pz p = Z_EARTH \<and> pgroup p = west) generateHeTuPoints) = replicate 4 4
   \<and> map numberValue (filter (\<lambda>p. pz p = Z_CENTER \<and> pgroup p = center) generateHeTuPoints)
        = replicate 5 5 @ replicate 10 10
   \<and> length (filter (\<lambda>p. numberValue p = 10 \<and> py p = CENTER_ROW_Y) generateHeTuPoints) = 5
   \<and> length (filter (\<lambda>p. numberValue p = 10 \<and> py p = - CENTER_ROW_Y) generateHeTuPoints) = 5
   \<and> map (\<lambda>k. length (filter (\<lambda>p. numberValue p = k) generateHeTuPoints)) [1, 2, 3, 4, 5, 6, 7, 8, 9, 10]
        = [1, 2, 3, 4, 5, 6, 7, 8, 9, 10]
   \<and> (\<exists>ps. generateLoShuPoints rot = Some ps
          \<and> set (map ls_numberValue ps) = set numbers
          \<and> map (\<lambda>k. int (length (filter (\<lambda>p. ls_numberValue p = k) ps))) numbers = numbers)"
  using hetu_heaven_face hetu_earth_face hetu_center_layer hetu_group_sizes loShu_counts [of rot]
  by blast

section \<open>The centre group of the Luo Shu catalog\<close>

lemma group5_entries:
  "loShuGroup rot 5 = Some
     [\<lparr>ls_id = ''ls-5-0'', ls_numberValue = 5, ls_polarity = YANG,
       planePos = (0, 0, 0), spherePos = (0, 0, 0)\<rparr>,
      \<lparr>ls_id = ''ls-5-1'', ls_numberValue = 5, ls_polarity = YANG,
       planePos = (0, gap * 0.6, 0), spherePos = (0, gap * 0.6, 0)\<rparr>,
      \<lparr>ls_id = ''ls-5-2'', ls_numberValue = 5, ls_polarity = YANG,
       planePos = (0, - gap * 0.6, 0), spherePos = (0, - gap * 0.6, 0)\<rparr>,
      \<lparr>ls_id = ''ls-5-3'', ls_numberValue = 5, ls_polarity = YANG,
       planePos = (- gap * 0.6, 0, 0), spherePos = (- gap * 0.6, 0, 0)\<rparr>,
      \<lparr>ls_id = ''ls-5-4'', ls_numberValue = 5, ls_polarity = YANG,
       planePos = (gap * 0.6, 0, 0), spherePos = (gap * 0.6, 0, 0)\<rparr>]"
  by (simp add: loShuGroup_def LOSHU_ANCHORS_def loShuOffsets_def loShuSpherePos_def
      loShuPlanePos_def Let_def showInt_def showNat_small)

lemma loShu_group5_is_block:
  "\<exists>ps g. generateLoShuPoints rot = Some ps \<and> loShuGroup rot 5 = Some g
     \<and> filter (\<lambda>p. ls_numberValue p = 5) ps = g"
proof -
  define g where "g k = the (loShuGroup rot k)" for k
  have G: "loShuGroup rot k = Some (g k)" if "k \<in> set numbers" for k
    using loShuGroup_values[OF that, of rot] by (auto simp: g_def)
  have F: "filter (\<lambda>p. ls_numberValue p = 5) (g k) = (if k = 5 then g k else [])"
    if "k \<in> set numbers" for k
    using loShuGroup_values[OF that, of rot] by (auto simp: g_def filter_empty_conv)
  have "generateLoShuPoints rot = Some (concat (map g numbers))"
    by (simp add: generateLoShuPoints_def numbers_def G)
  moreover have "filter (\<lambda>p. ls_numberValue p = 5) (concat (map g numbers)) = g 5"
    by (simp add: numbers_def F)
  moreover have "loShuGroup rot 5 = Some (g 5)"
    by (simp add: G numbers_def)
  ultimately show ?thesis by blast
qed

text \<open>
  Claim C4, as amended.  Group 5 of the Luo Shu catalog has exactly 5 points, built from
  the local offsets \<open>(0,0)\<close>, \<open>(0, 0.6 gap)\<close>, \<open>(0, - 0.6 gap)\<close>, \<open>(- 0.6 gap, 0)\<close>,
  \<open>(0.6 gap, 0)\<close>.  The projection step leaves the group unrotated and unprojected: the
  sphere position of each point is its offset placed in the plane \<open>z = 0\<close> through the
  centre of the sphere (and so is its plane position).  Only the first point is at the
  centre itself.
\<close>

theorem loShu_group5_positions:
  "\<exists>ps. generateLoShuPoints rot = Some ps
     \<and> map spherePos (filter (\<lambda>p. ls_numberValue p = 5) ps)
         = [(0, 0, 0), (0, 0.6 * gap, 0), (0, - 0.6 * gap, 0), (- 0.6 * gap, 0, 0), (0.6 * gap, 0, 0)]
     \<and> map planePos (filter (\<lambda>p. ls_numberValue p = 5) ps)
         = [(0, 0, 0), (0, 0.6 * gap, 0), (0, - 0.6 * gap, 0), (- 0.6 * gap, 0, 0), (0.6 * gap, 0, 0)]
     \<and> loShuOffsets 5 = [(0, 0), (0, 0.6 * gap), (0, - 0.6 * gap), (- 0.6 * gap, 0), (0.6 * gap, 0)]"
proof -
  obtain ps g where "generateLoShuPoints rot = Some ps" "loShuGroup rot 5 = Some g"
     "filter (\<lambda>p. ls_numberValue p = 5) ps = g"
    using loShu_group5_is_block by blast
  then show ?thesis
    by (auto simp add: group5_entries loShuOffsets_def)
qed

text \<open>
  Claim C4 as stated fails: with the rotation routine taken to be the identity, the
  catalog's point \<open>ls-5-1\<close> of group 5 has sphere position \<open>(0, 0.78, 0)\<close>, which is not
  the centre \<open>(0, 0, 0)\<close>.
\<close>

theorem loShu_group5_not_all_at_center:
  "\<exists>ps. generateLoShuPoints (\<lambda>n v. v) = Some ps
     \<and> (\<exists>p \<in> set ps. ls_numberValue p = 5 \<and> ls_id p = ''ls-5-1''
            \<and> spherePos p = (0, 39 / 50, 0) \<and> spherePos p \<noteq> (0, 0, 0))"
proof -
  obtain ps g where *: "generateLoShuPoints (\<lambda>n v. v) = Some ps"
     "loShuGroup (\<lambda>n v. v) 5 = Some g"
     "filter (\<lambda>p. ls_numberValue p = 5) ps = g"
    using loShu_group5_is_block by blast
  let ?p = "\<lparr>ls_id = ''ls-5-1'', ls_numberValue = 5, ls_polarity = YANG,
       planePos = (0, gap * 0.6, 0), spherePos = (0, gap * 0.6, 0)\<rparr>"
  have "?p \<in> set g" using *(2) by (auto simp add: group5_entries)
  then have "?p \<in> set ps" using *(3) by auto
  moreover have "spherePos ?p = (0, 39 / 50, 0)" by (simp add: gap_def)
  ultimately show ?thesis using *(1) by force
qed

section \<open>Blend of static and animated position\<close>

text \<open>
  Claim C3.  For every point, mode, pair of maps and time \<open>t\<close>: when the map of the
  current mode has a config for the point, the position the frame callback sets,
  \<open>static + (animated(t) - static) * b\<close>, is the static cube position for blend factor
  \<open>b = 0\<close> and is \<open>getTargetPosition config t\<close> for \<open>b = 1\<close>.
\<close>

theorem blend_endpoints:
  "(if modeRef = HELIX then helixMap (pid pt) else galaxyMap (pid pt)) = Some gConfig \<Longrightarrow>
     updatePoint modeRef galaxyMap helixMap t 0 pt = Some (px pt, py pt, pz pt)
     \<and> updatePoint modeRef galaxyMap helixMap t 1 pt = Some (getTargetPosition gConfig t)"
  by (cases "getTargetPosition gConfig t") (simp add: updatePoint_def)

theorem blend_endpoints_witness:
  "[''center-5-top'' \<mapsto> \<lparr>cfg_type = CORE, cfg_r = 1.2, thetaStart = 0, speedFactor = 0, zAmp = 0,
        zFreq = 0, yOffset = None\<rparr>] (pid (createPoint ''center-5-top'' 0 1.2 0 YANG center 5))
     = Some \<lparr>cfg_type = CORE, cfg_r = 1.2, thetaStart = 0, speedFactor = 0, zAmp = 0,
        zFreq = 0, yOffset = None\<rparr>
   \<and> updatePoint GALAXY
        [''center-5-top'' \<mapsto> \<lparr>cfg_type = CORE, cfg_r = 1.2, thetaStart = 0, speedFactor = 0, zAmp = 0,
        zFreq = 0, yOffset = None\<rparr>] Map.empty 2 0
        (createPoint ''center-5-top'' 0 1.2 0 YANG center 5) = Some (0, 1.2, 0)
   \<and> updatePoint GALAXY
        [''center-5-top'' \<mapsto> \<lparr>cfg_type = CORE, cfg_r = 1.2, thetaStart = 0, speedFactor = 0, zAmp = 0,
        zFreq = 0, yOffset = None\<rparr>] Map.empty 2 1
        (createPoint ''center-5-top'' 0 1.2 0 YANG center 5) = Some (1.2, 0, 0)"
  using blend_endpoints [of GALAXY Map.empty "createPoint ''center-5-top'' 0 1.2 0 YANG center 5"
      "[''center-5-top'' \<mapsto> \<lparr>cfg_type = CORE, cfg_r = 1.2, thetaStart = 0, speedFactor = 0, zAmp = 0,
        zFreq = 0, yOffset = None\<rparr>]"
      "\<lparr>cfg_type = CORE, cfg_r = 1.2, thetaStart = 0, speedFactor = 0, zAmp = 0,
        zFreq = 0, yOffset = None\<rparr>" 2]
  by (simp add: createPoint_def getTargetPosition_def)

section \<open>Timed transitions of the state machine\<close>

lemma fold_timers_reach_running:
  "cur = MORPHING \<or> cur = RUNNING \<Longrightarrow> ToRunning \<in> snd ` set es \<Longrightarrow>
     fold (\<lambda>e c. timerUpdater (snd e) c) es cur = RUNNING"
proof (induction es arbitrary: cur)
  case Nil then show ?case by simp
next
  case (Cons e es)
  have step: "timerUpdater (snd e) cur = MORPHING \<or> timerUpdater (snd e) cur = RUNNING"
    using Cons.prems(1) by (cases "snd e") auto
  show ?case
  proof (cases "ToRunning \<in> snd ` set es")
    case True
    then show ?thesis using Cons.IH [OF step] by simp
  next
    case False
    then have k: "snd e = ToRunning" using Cons.prems(2) by auto
    have now_running: "timerUpdater (snd e) cur = RUNNING"
      using Cons.prems(1) k by auto
    have "fold (\<lambda>e c. timerUpdater (snd e) c) es RUNNING = RUNNING"
      using False
    proof (induction es)
      case Nil then show ?case by simp
    next
      case (Cons a es)
      then have "snd a \<noteq> ToRunning" by auto
      then have "timerUpdater (snd a) RUNNING = RUNNING" by (cases "snd a") auto
      then show ?case using Cons by simp
    qed
    then show ?thesis using now_running by simp
  qed
qed

lemma fold_timers_reach_static:
  "cur = RETURNING \<or> cur = STATIC \<Longrightarrow> ToStatic \<in> snd ` set es \<Longrightarrow>
     fold (\<lambda>e c. timerUpdater (snd e) c) es cur = STATIC"
proof (induction es arbitrary: cur)
  case Nil then show ?case by simp
next
  case (Cons e es)
  have step: "timerUpdater (snd e) cur = RETURNING \<or> timerUpdater (snd e) cur = STATIC"
    using Cons.prems(1) by (cases "snd e") auto
  show ?case
  proof (cases "ToStatic \<in> snd ` set es")
    case True
    then show ?thesis using Cons.IH [OF step] by simp
  next
    case False
    then have k: "snd e = ToStatic" using Cons.prems(2) by auto
    have now_static: "timerUpdater (snd e) cur = STATIC"
      using Cons.prems(1) k by auto
    have "fold (\<lambda>e c. timerUpdater (snd e) c) es STATIC = STATIC"
    proof (induction es)
      case Nil then show ?case by simp
    next
      case (Cons a es)
      have "timerUpdater (snd a) STATIC = STATIC" by (cases "snd a") auto
      then show ?case using Cons by simp
    qed
    then show ?thesis using now_static by simp
  qed
qed

lemma elapse_animState:
  "animState (elapse d s) =
     fold (\<lambda>e c. timerUpdater (snd e) c)
       (sort_key fst (filter (\<lambda>e. fst e \<le> now s + d) (timers s))) (animState s)"
  by (simp add: elapse_def Let_def)

lemma galaxy_click_from_static:
  assumes "animState s = STATIC"
  shows "animState (handleGalaxyClick s) = MORPHING"
    and "timers (handleGalaxyClick s) = timers s @ [(now s + 1000, ToRunning)]"
    and "now (handleGalaxyClick s) = now s"
  using assms by (simp_all add: handleGalaxyClick_def setTimeout_def Let_def)

lemma reset_from_active:
  assumes "animState s \<noteq> STATIC"
  shows "animState (handleReset s) = RETURNING"
    and "timers (handleReset s) = timers s @ [(now s + 1000, ToStatic)]"
    and "now (handleReset s) = now s"
  using assms by (simp_all add: handleReset_def setTimeout_def Let_def)

lemma galaxy_click_then_wait:
  assumes "animState s = STATIC" and "1000 \<le> d"
  shows "animState (elapse d (handleGalaxyClick s)) = RUNNING"
proof -
  let ?s = "handleGalaxyClick s"
  have "(now s + 1000, ToRunning) \<in> set (filter (\<lambda>e. fst e \<le> now ?s + d) (timers ?s))"
    using assms by (simp add: galaxy_click_from_static)
  then have "ToRunning \<in> snd ` set (sort_key fst (filter (\<lambda>e. fst e \<le> now ?s + d) (timers ?s)))"
    by (metis image_eqI set_sort snd_conv)
  then show ?thesis
    unfolding elapse_animState
    using fold_timers_reach_running galaxy_click_from_static(1) [OF assms(1)] by blast
qed

lemma reset_then_wait:
  assumes "animState s \<noteq> STATIC" and "1000 \<le> d"
  shows "animState (elapse d (handleReset s)) = STATIC"
proof -
  let ?s = "handleReset s"
  have "(now s + 1000, ToStatic) \<in> set (filter (\<lambda>e. fst e \<le> now ?s + d) (timers ?s))"
    using assms by (simp add: reset_from_active)
  then have "ToStatic \<in> snd ` set (sort_key fst (filter (\<lambda>e. fst e \<le> now ?s + d) (timers ?s)))"
    by (metis image_eqI set_sort snd_conv)
  then show ?thesis
    unfolding elapse_animState
    using fold_timers_reach_static reset_from_active(1) [OF assms(1)] by blast
qed

text \<open>
  Claim C5.  From \<open>STATIC\<close> the galaxy click enters \<open>MORPHING\<close> and registers the
  one-second callback; the callback sets \<open>RUNNING\<close> when the state is \<open>MORPHING\<close> and
  changes nothing otherwise; with no further input, one second later the state is
  \<open>RUNNING\<close>, whatever callbacks were still pending.  Reset from any state but \<open>STATIC\<close>
  enters \<open>RETURNING\<close> and registers its callback, which sets \<open>STATIC\<close> when the state is
  \<open>RETURNING\<close> and changes nothing otherwise; one second later the state is \<open>STATIC\<close>.
\<close>

theorem state_machine_auto_advance:
  "(animState s = STATIC \<longrightarrow>
      animState (handleGalaxyClick s) = MORPHING
      \<and> timers (handleGalaxyClick s) = timers s @ [(now s + 1000, ToRunning)]
      \<and> animState (elapse 1000 (handleGalaxyClick s)) = RUNNING)
   \<and> (animState s \<noteq> STATIC \<longrightarrow>
      animState (handleReset s) = RETURNING
      \<and> timers (handleReset s) = timers s @ [(now s + 1000, ToStatic)]
      \<and> animState (elapse 1000 (handleReset s)) = STATIC)
   \<and> (cur = MORPHING \<longrightarrow> timerUpdater ToRunning cur = RUNNING)
   \<and> (cur \<noteq> MORPHING \<longrightarrow> timerUpdater ToRunning cur = cur)
   \<and> (cur = RETURNING \<longrightarrow> timerUpdater ToStatic cur = STATIC)
   \<and> (cur \<noteq> RETURNING \<longrightarrow> timerUpdater ToStatic cur = cur)"
  using galaxy_click_from_static(1,2) [of s] galaxy_click_then_wait [of s 1000]
    reset_from_active(1,2) [of s] reset_then_wait [of s 1000]
  by simp


theorem state_machine_auto_advance_witness:
  "animState \<lparr>animState = STATIC, lastMode = GALAXY, now = 1100,
       timers = [(1200, ToRunning), (1300, ToStatic)]\<rparr> = STATIC
   \<and> animState (handleGalaxyClick \<lparr>animState = STATIC, lastMode = GALAXY, now = 1100,
       timers = [(1200, ToRunning), (1300, ToStatic)]\<rparr>) = MORPHING
   \<and> animState (elapse 1000 (handleGalaxyClick \<lparr>animState = STATIC, lastMode = GALAXY, now = 1100,
       timers = [(1200, ToRunning), (1300, ToStatic)]\<rparr>)) = RUNNING
   \<and> animState \<lparr>animState = HELIX_PAUSED, lastMode = HELIX, now = 0, timers = []\<rparr> \<noteq> STATIC
   \<and> animState (handleReset \<lparr>animState = HELIX_PAUSED, lastMode = HELIX, now = 0, timers = []\<rparr>)
       = RETURNING
   \<and> animState (elapse 1000
        (handleReset \<lparr>animState = HELIX_PAUSED, lastMode = HELIX, now = 0, timers = []\<rparr>)) = STATIC
   \<and> timerUpdater ToRunning MORPHING = RUNNING
   \<and> PAUSED \<noteq> MORPHING \<and> timerUpdater ToRunning PAUSED = PAUSED
   \<and> timerUpdater ToStatic RETURNING = STATIC
   \<and> MORPHING \<noteq> RETURNING \<and> timerUpdater ToStatic MORPHING = MORPHING"
  using state_machine_auto_advance [of "\<lparr>animState = STATIC, lastMode = GALAXY, now = 1100,
       timers = [(1200, ToRunning), (1300, ToStatic)]\<rparr>" MORPHING]
    state_machine_auto_advance [of
       "\<lparr>animState = HELIX_PAUSED, lastMode = HELIX, now = 0, timers = []\<rparr>" RETURNING]
    state_machine_auto_advance [of
       "\<lparr>animState = HELIX_PAUSED, lastMode = HELIX, now = 0, timers = []\<rparr>" PAUSED]
    state_machine_auto_advance [of
       "\<lparr>animState = HELIX_PAUSED, lastMode = HELIX, now = 0, timers = []\<rparr>" MORPHING]
  by simp

section \<open>The sequence sorter\<close>

subsection \<open>Insertion sort with a comparator\<close>

lemma mset_insertBy: "mset (insertBy cmp x xs) = add_mset x (mset xs)"
  by (induction xs) auto

lemma mset_sortBy: "mset (sortBy cmp xs) = mset xs"
  unfolding sortBy_def by (induction xs) (auto simp: mset_insertBy)


lemma set_sortBy: "set (sortBy cmp xs) = set xs"
  by (metis mset_sortBy set_mset_mset)






subsection \<open>The comparator of \<open>sortHeTuPoints\<close>\<close>

lemma indexOf_ge: "- 1 \<le> indexOf xs v"
  by (induction xs) (auto simp: Let_def)








lemma sortHeTuPoints_set:
  "set (sortHeTuPoints points seq) = {p \<in> set points. numberValue p \<in> set seq}"
  by (simp add: sortHeTuPoints_def set_sortBy)




subsection \<open>Identifiers of the He Tu catalog\<close>

lemma upt_small:
  "[0..<2] = [0, 1]" "[0..<3] = [0, 1, 2]" "[0..<4] = [0, 1, 2, 3]" "[0..<5] = [0, 1, 2, 3, 4]"
  "[0..<6] = [0, 1, 2, 3, 4, 5]" "[0..<7] = [0, 1, 2, 3, 4, 5, 6]"
  "[0..<8] = [0, 1, 2, 3, 4, 5, 6, 7]" "[0..<9] = [0, 1, 2, 3, 4, 5, 6, 7, 8]"
  by (simp_all add: upt_rec)

lemma hetu_ids:
  "map pid generateHeTuPoints =
    [''heaven-7-0'', ''heaven-7-1'', ''heaven-7-2'', ''heaven-7-3'', ''heaven-7-4'', ''heaven-7-5'', ''heaven-7-6'',
     ''heaven-1-0'',
     ''heaven-9-0'', ''heaven-9-1'', ''heaven-9-2'', ''heaven-9-3'', ''heaven-9-4'', ''heaven-9-5'', ''heaven-9-6'',
     ''heaven-9-7'', ''heaven-9-8'',
     ''heaven-3-0'', ''heaven-3-1'', ''heaven-3-2'',
     ''earth-2-0'', ''earth-2-1'',
     ''earth-6-0'', ''earth-6-1'', ''earth-6-2'', ''earth-6-3'', ''earth-6-4'', ''earth-6-5'',
     ''earth-8-0'', ''earth-8-1'', ''earth-8-2'', ''earth-8-3'', ''earth-8-4'', ''earth-8-5'', ''earth-8-6'', ''earth-8-7'',
     ''earth-4-0'', ''earth-4-1'', ''earth-4-2'', ''earth-4-3'',
     ''center-5-mid'', ''center-5-top'', ''center-5-btm'', ''center-5-lft'', ''center-5-rgt'',
     ''center-10-top-0'', ''center-10-top-1'', ''center-10-top-2'', ''center-10-top-3'', ''center-10-top-4'',
     ''center-10-btm-0'', ''center-10-btm-1'', ''center-10-btm-2'', ''center-10-btm-3'', ''center-10-btm-4'']"
  by (simp add: generateHeTuPoints_def createPoint_def showNat_small upt_small)

lemma hetu_ids_distinct: "distinct (map pid generateHeTuPoints)"
  unfolding hetu_ids by simp




section \<open>Spiral arms of the galaxy map\<close>


subsection \<open>The spiral loop\<close>








subsection \<open>The two arms on the He Tu catalog\<close>






section \<open>Strands of the helix map\<close>












section \<open>Coverage of the configuration maps\<close>

lemma assignAll_Nil: "assignAll [] m = m"
  by (simp add: assignAll_def)

lemma assignAll_Cons: "assignAll (e # es) m = assignAll es (m(fst e \<mapsto> snd e))"
  by (simp add: assignAll_def)

lemma assignAll_type:
  assumes "(\<exists>c. m k = Some c \<and> cfg_type c = ty) \<or> k \<in> fst ` set es"
    and "\<forall>e \<in> set es. fst e = k \<longrightarrow> cfg_type (snd e) = ty"
  shows "\<exists>c. assignAll es m k = Some c \<and> cfg_type c = ty"
  using assms
proof (induction es arbitrary: m)
  case Nil then show ?case by (simp add: assignAll_Nil)
next
  case (Cons e es)
  have B: "\<forall>e \<in> set es. fst e = k \<longrightarrow> cfg_type (snd e) = ty"
    using Cons.prems(2) by simp
  have A: "(\<exists>c. (m(fst e \<mapsto> snd e)) k = Some c \<and> cfg_type c = ty) \<or> k \<in> fst ` set es"
  proof (cases "fst e = k")
    case True
    then show ?thesis using Cons.prems(2) by simp
  next
    case False
    then show ?thesis using Cons.prems(1) by auto
  qed
  show ?case
    unfolding assignAll_Cons by (rule Cons.IH [of "m(fst e \<mapsto> snd e)", OF A B])
qed

lemma assignAll_other: "k \<notin> fst ` set es \<Longrightarrow> assignAll es m k = m k"
  by (induction es arbitrary: m) (auto simp: assignAll_Nil assignAll_Cons)

lemma coreEntries:
  "\<forall>e \<in> set (galaxyCore points). cfg_type (snd e) = CORE
      \<and> (\<exists>q \<in> set points. fst e = pid q \<and> pgroup q = center \<and> polarity q = YANG)"
  "\<forall>q \<in> set points. pgroup q = center \<and> polarity q = YANG \<longrightarrow> pid q \<in> fst ` set (galaxyCore points)"
  "\<forall>e \<in> set (helixCore points). cfg_type (snd e) = CORE
      \<and> (\<exists>q \<in> set points. fst e = pid q \<and> pgroup q = center \<and> polarity q = YANG)"
  "\<forall>q \<in> set points. pgroup q = center \<and> polarity q = YANG \<longrightarrow> pid q \<in> fst ` set (helixCore points)"
  by (auto simp: galaxyCore_def helixCore_def Let_def image_iff)

lemma ringKeys:
  "map fst (galaxyRing points) = map pid (filter (\<lambda>p. pgroup p = center \<and> polarity p = YIN) points)"
  "map fst (helixRing points) = map pid (filter (\<lambda>p. pgroup p = center \<and> polarity p = YIN) points)"
  unfolding galaxyRing_def helixRing_def Let_def
  by (rule nth_equalityI; simp)+

lemma ringTypes:
  "\<forall>e \<in> set (galaxyRing points). cfg_type (snd e) = RING"
  "\<forall>e \<in> set (helixRing points). cfg_type (snd e) = RING"
  by (auto simp: galaxyRing_def helixRing_def Let_def)

lemma entries_from_keys:
  assumes "fst ` set es = pid ` {p \<in> set points. Q p}"
    and "\<forall>e \<in> set es. cfg_type (snd e) = ty"
  shows "\<forall>e \<in> set es. cfg_type (snd e) = ty \<and> (\<exists>q \<in> set points. fst e = pid q \<and> Q q)"
    and "\<forall>q \<in> set points. Q q \<longrightarrow> pid q \<in> fst ` set es"
proof -
  show "\<forall>e \<in> set es. cfg_type (snd e) = ty \<and> (\<exists>q \<in> set points. fst e = pid q \<and> Q q)"
  proof (intro ballI conjI)
    fix e assume e: "e \<in> set es"
    show "cfg_type (snd e) = ty" using assms(2) e by blast
    have "fst e \<in> fst ` set es" using e by blast
    then have "fst e \<in> pid ` {p \<in> set points. Q p}" unfolding assms(1) .
    then show "\<exists>q \<in> set points. fst e = pid q \<and> Q q" by blast
  qed
  show "\<forall>q \<in> set points. Q q \<longrightarrow> pid q \<in> fst ` set es"
    unfolding assms(1) by blast
qed

lemma ringEntries:
  "\<forall>e \<in> set (galaxyRing points). cfg_type (snd e) = RING
      \<and> (\<exists>q \<in> set points. fst e = pid q \<and> pgroup q = center \<and> polarity q = YIN)"
  "\<forall>q \<in> set points. pgroup q = center \<and> polarity q = YIN \<longrightarrow> pid q \<in> fst ` set (galaxyRing points)"
  "\<forall>e \<in> set (helixRing points). cfg_type (snd e) = RING
      \<and> (\<exists>q \<in> set points. fst e = pid q \<and> pgroup q = center \<and> polarity q = YIN)"
  "\<forall>q \<in> set points. pgroup q = center \<and> polarity q = YIN \<longrightarrow> pid q \<in> fst ` set (helixRing points)"
proof -
  have k1: "fst ` set (galaxyRing points)
      = pid ` {p \<in> set points. pgroup p = center \<and> polarity p = YIN}"
    using arg_cong [OF ringKeys(1) [of points], of set] by simp
  have k2: "fst ` set (helixRing points)
      = pid ` {p \<in> set points. pgroup p = center \<and> polarity p = YIN}"
    using arg_cong [OF ringKeys(2) [of points], of set] by simp
  note g = entries_from_keys [OF k1 ringTypes(1)]
  note h = entries_from_keys [OF k2 ringTypes(2)]
  show "\<forall>e \<in> set (galaxyRing points). cfg_type (snd e) = RING
      \<and> (\<exists>q \<in> set points. fst e = pid q \<and> pgroup q = center \<and> polarity q = YIN)"
    by (rule g(1))
  show "\<forall>q \<in> set points. pgroup q = center \<and> polarity q = YIN \<longrightarrow> pid q \<in> fst ` set (galaxyRing points)"
    by (rule g(2))
  show "\<forall>e \<in> set (helixRing points). cfg_type (snd e) = RING
      \<and> (\<exists>q \<in> set points. fst e = pid q \<and> pgroup q = center \<and> polarity q = YIN)"
    by (rule h(1))
  show "\<forall>q \<in> set points. pgroup q = center \<and> polarity q = YIN \<longrightarrow> pid q \<in> fst ` set (helixRing points)"
    by (rule h(2))
qed

lemma spiralArmLoop_types:
  "\<forall>e \<in> set (spiralArmLoop off phi lastV i ps). cfg_type (snd e) = ARM"
  by (induction ps arbitrary: phi lastV i) (simp_all add: Let_def)

lemma helixLoop_types:
  "\<forall>e \<in> set (helixLoop ph sp T h lastV ps). cfg_type (snd e) = ARM"
  by (induction ps arbitrary: h lastV) (simp_all add: Let_def)

lemma spiralArmLoop_keys: "map fst (spiralArmLoop off phi lastV i ps) = map pid ps"
  by (induction ps arbitrary: phi lastV i) (simp_all add: Let_def)

lemma helixLoop_keys: "map fst (helixLoop ph sp T h lastV ps) = map pid ps"
  by (induction ps arbitrary: h lastV) (simp_all add: Let_def)

lemma armEntries:
  "\<forall>e \<in> set (createSpiralArm points seq off). cfg_type (snd e) = ARM
      \<and> (\<exists>q \<in> set points. fst e = pid q \<and> numberValue q \<in> set seq)"
  "\<forall>q \<in> set points. numberValue q \<in> set seq \<longrightarrow> pid q \<in> fst ` set (createSpiralArm points seq off)"
proof -
  have k: "fst ` set (createSpiralArm points seq off)
      = pid ` {p \<in> set points. numberValue p \<in> set seq}"
    using arg_cong [OF spiralArmLoop_keys [of off 0 "- 1" 0 "sortHeTuPoints points seq"], of set]
    by (simp add: createSpiralArm_def sortHeTuPoints_set Let_def)
  have t: "\<forall>e \<in> set (createSpiralArm points seq off). cfg_type (snd e) = ARM"
    unfolding createSpiralArm_def Let_def by (rule spiralArmLoop_types)
  note g = entries_from_keys [OF k t]
  show "\<forall>e \<in> set (createSpiralArm points seq off). cfg_type (snd e) = ARM
      \<and> (\<exists>q \<in> set points. fst e = pid q \<and> numberValue q \<in> set seq)"
    by (rule g(1))
  show "\<forall>q \<in> set points. numberValue q \<in> set seq \<longrightarrow> pid q \<in> fst ` set (createSpiralArm points seq off)"
    by (rule g(2))
qed

lemma strandEntries:
  "\<forall>e \<in> set (assignHelixPosition points seq ph sp). cfg_type (snd e) = ARM
      \<and> (\<exists>q \<in> set points. fst e = pid q \<and> numberValue q \<in> set seq)"
  "\<forall>q \<in> set points. numberValue q \<in> set seq \<longrightarrow> pid q \<in> fst ` set (assignHelixPosition points seq ph sp)"
proof -
  have k: "fst ` set (assignHelixPosition points seq ph sp)
      = pid ` {p \<in> set points. numberValue p \<in> set seq}"
    using arg_cong [OF helixLoop_keys [of ph sp "totalHeightLoop 0 (- 1) (sortHeTuPoints points seq)"
          0 "- 1" "sortHeTuPoints points seq"], of set]
    by (simp add: assignHelixPosition_def sortHeTuPoints_set Let_def)
  have t: "\<forall>e \<in> set (assignHelixPosition points seq ph sp). cfg_type (snd e) = ARM"
    unfolding assignHelixPosition_def Let_def by (rule helixLoop_types)
  note g = entries_from_keys [OF k t]
  show "\<forall>e \<in> set (assignHelixPosition points seq ph sp). cfg_type (snd e) = ARM
      \<and> (\<exists>q \<in> set points. fst e = pid q \<and> numberValue q \<in> set seq)"
    by (rule g(1))
  show "\<forall>q \<in> set points. numberValue q \<in> set seq \<longrightarrow> pid q \<in> fst ` set (assignHelixPosition points seq ph sp)"
    by (rule g(2))
qed

lemma no_key:
  assumes "\<forall>e \<in> set es. cfg_type (snd e) = ty \<and> (\<exists>q \<in> set points. fst e = pid q \<and> Q q)"
    and "\<And>q. q \<in> set points \<Longrightarrow> pid q = pid p \<Longrightarrow> q = p"
    and "\<not> Q p"
  shows "pid p \<notin> fst ` set es"
proof
  assume "pid p \<in> fst ` set es"
  then obtain e where e: "e \<in> set es" "fst e = pid p" by force
  then obtain q where "q \<in> set points" "fst e = pid q" "Q q" using assms(1) by blast
  then show False using assms(2,3) e(2) by force
qed

lemma has_key:
  assumes "\<forall>e \<in> set es. cfg_type (snd e) = ty \<and> (\<exists>q \<in> set points. fst e = pid q \<and> Q q)"
    and "\<forall>q \<in> set points. Q q \<longrightarrow> pid q \<in> fst ` set es"
    and "p \<in> set points" "Q p"
  shows "\<exists>c. assignAll es m (pid p) = Some c \<and> cfg_type c = ty"
proof (rule assignAll_type)
  show "(\<exists>c. m (pid p) = Some c \<and> cfg_type c = ty) \<or> pid p \<in> fst ` set es"
    using assms(2,3,4) by blast
  show "\<forall>e \<in> set es. fst e = pid p \<longrightarrow> cfg_type (snd e) = ty"
    using assms(1) by blast
qed

lemma layered_lookup:
  assumes inj: "inj_on pid (set points)"
    and core: "\<forall>e \<in> set core. cfg_type (snd e) = CORE
        \<and> (\<exists>q \<in> set points. fst e = pid q \<and> pgroup q = center \<and> polarity q = YANG)"
    and coreK: "\<forall>q \<in> set points. pgroup q = center \<and> polarity q = YANG \<longrightarrow> pid q \<in> fst ` set core"
    and ring: "\<forall>e \<in> set ring. cfg_type (snd e) = RING
        \<and> (\<exists>q \<in> set points. fst e = pid q \<and> pgroup q = center \<and> polarity q = YIN)"
    and ringK: "\<forall>q \<in> set points. pgroup q = center \<and> polarity q = YIN \<longrightarrow> pid q \<in> fst ` set ring"
    and arm1: "\<forall>e \<in> set arm1. cfg_type (snd e) = ARM
        \<and> (\<exists>q \<in> set points. fst e = pid q \<and> numberValue q \<in> set seq1)"
    and arm1K: "\<forall>q \<in> set points. numberValue q \<in> set seq1 \<longrightarrow> pid q \<in> fst ` set arm1"
    and arm2: "\<forall>e \<in> set arm2. cfg_type (snd e) = ARM
        \<and> (\<exists>q \<in> set points. fst e = pid q \<and> numberValue q \<in> set seq2)"
    and arm2K: "\<forall>q \<in> set points. numberValue q \<in> set seq2 \<longrightarrow> pid q \<in> fst ` set arm2"
    and sep: "\<forall>q \<in> set points. (pgroup q = center) = (numberValue q \<notin> set seq1 \<union> set seq2)"
    and p: "p \<in> set points"
  shows "\<exists>c. assignAll arm2 (assignAll arm1 (assignAll ring (assignAll core Map.empty))) (pid p) = Some c
     \<and> cfg_type c = (if pgroup p = center then (if polarity p = YANG then CORE else RING) else ARM)"
proof -
  have same: "q = p" if "q \<in> set points" "pid q = pid p" for q
    using inj p that by (auto dest: inj_onD)
  consider (c) "pgroup p = center" "polarity p = YANG"
    | (r) "pgroup p = center" "polarity p = YIN"
    | (a1) "pgroup p \<noteq> center" "numberValue p \<in> set seq2"
    | (a2) "pgroup p \<noteq> center" "numberValue p \<notin> set seq2" "numberValue p \<in> set seq1"
    using sep p by (cases "polarity p") auto
  then show ?thesis
  proof cases
    case c
    have n1: "numberValue p \<notin> set seq1" and n2: "numberValue p \<notin> set seq2"
      using sep p c(1) by auto
    have k2: "pid p \<notin> fst ` set ring"
      by (rule no_key [OF ring same]) (use c in auto)
    have k3: "pid p \<notin> fst ` set arm1"
      by (rule no_key [OF arm1 same]) (use n1 in auto)
    have k4: "pid p \<notin> fst ` set arm2"
      by (rule no_key [OF arm2 same]) (use n2 in auto)
    have "\<exists>x. assignAll core Map.empty (pid p) = Some x \<and> cfg_type x = CORE"
      by (rule has_key [OF core coreK p]) (use c in auto)
    then show ?thesis
      using c by (simp add: assignAll_other [OF k2] assignAll_other [OF k3] assignAll_other [OF k4])
  next
    case r
    have n1: "numberValue p \<notin> set seq1" and n2: "numberValue p \<notin> set seq2"
      using sep p r(1) by auto
    have k3: "pid p \<notin> fst ` set arm1"
      by (rule no_key [OF arm1 same]) (use n1 in auto)
    have k4: "pid p \<notin> fst ` set arm2"
      by (rule no_key [OF arm2 same]) (use n2 in auto)
    have "\<exists>x. assignAll ring (assignAll core Map.empty) (pid p) = Some x \<and> cfg_type x = RING"
      by (rule has_key [OF ring ringK p]) (use r in auto)
    then show ?thesis
      using r by (simp add: assignAll_other [OF k3] assignAll_other [OF k4])
  next
    case a1
    have "\<exists>x. assignAll arm2 (assignAll arm1 (assignAll ring (assignAll core Map.empty))) (pid p) = Some x
        \<and> cfg_type x = ARM"
      by (rule has_key [OF arm2 arm2K p]) (use a1 in auto)
    then show ?thesis using a1 by simp
  next
    case a2
    have k4: "pid p \<notin> fst ` set arm2"
      by (rule no_key [OF arm2 same]) (use a2 in auto)
    have "\<exists>x. assignAll arm1 (assignAll ring (assignAll core Map.empty)) (pid p) = Some x
        \<and> cfg_type x = ARM"
      by (rule has_key [OF arm1 arm1K p]) (use a2 in auto)
    then show ?thesis using a2 by (simp add: assignAll_other [OF k4])
  qed
qed

lemma galaxyMap_lookup:
  assumes "inj_on pid (set points)"
    and "\<forall>q \<in> set points. (pgroup q = center) = (numberValue q \<notin> set [1, 3, 7, 9] \<union> set [2, 4, 6, 8])"
    and "p \<in> set points"
  shows "\<exists>c. generateGalaxyMap points (pid p) = Some c
     \<and> cfg_type c = (if pgroup p = center then (if polarity p = YANG then CORE else RING) else ARM)"
  unfolding generateGalaxyMap_def yangSequenceValues_def yinSequenceValues_def
  by (rule layered_lookup [OF assms(1) coreEntries(1,2) ringEntries(1,2) armEntries armEntries
        assms(2,3)])

lemma helixMap_lookup:
  assumes "inj_on pid (set points)"
    and "\<forall>q \<in> set points. (pgroup q = center) = (numberValue q \<notin> set [1, 3, 7, 9] \<union> set [2, 4, 6, 8])"
    and "p \<in> set points"
  shows "\<exists>c. generateHelixMap points (pid p) = Some c
     \<and> cfg_type c = (if pgroup p = center then (if polarity p = YANG then CORE else RING) else ARM)"
  unfolding generateHelixMap_def
  by (rule layered_lookup [OF assms(1) coreEntries(3,4) ringEntries(3,4) strandEntries strandEntries
        assms(2,3)])

lemma hetu_center_iff:
  "\<forall>q \<in> set generateHeTuPoints.
     (pgroup q = center) = (numberValue q \<notin> set [1, 3, 7, 9] \<union> set [2, 4, 6, 8])"
  by (auto simp add: generateHeTuPoints_def createPoint_def)

lemma updatePoint_defined:
  assumes "galaxyMap (pid p) \<noteq> None" "helixMap (pid p) \<noteq> None"
  shows "updatePoint modeRef galaxyMap helixMap t b p \<noteq> None"
  using assms by (auto simp: updatePoint_def Let_def split: option.splits prod.splits)

text \<open>
  Claim C10.  For every point of the He Tu catalog both \<open>generateGalaxyMap\<close> and
  \<open>generateHelixMap\<close> hold an entry under the point's identifier: of type \<open>CORE\<close> for a
  centre \<open>YANG\<close> point, \<open>RING\<close> for a centre \<open>YIN\<close> point and \<open>ARM\<close> for every face point.
  Hence the per-frame lookup of the interpolation engine finds a config in either mode,
  at every time and blend factor.
\<close>

theorem every_catalog_point_has_configs:
  "\<forall>p \<in> set generateHeTuPoints.
     (\<exists>c. generateGalaxyMap generateHeTuPoints (pid p) = Some c
        \<and> cfg_type c = (if pgroup p = center then (if polarity p = YANG then CORE else RING) else ARM))
   \<and> (\<exists>c. generateHelixMap generateHeTuPoints (pid p) = Some c
        \<and> cfg_type c = (if pgroup p = center then (if polarity p = YANG then CORE else RING) else ARM))
   \<and> (\<forall>modeRef t b. updatePoint modeRef (generateGalaxyMap generateHeTuPoints)
          (generateHelixMap generateHeTuPoints) t b p \<noteq> None)"
proof
  fix p assume p: "p \<in> set generateHeTuPoints"
  have inj: "inj_on pid (set generateHeTuPoints)"
    using hetu_ids_distinct by (simp add: distinct_map)
  note g = galaxyMap_lookup [OF inj hetu_center_iff p]
  note h = helixMap_lookup [OF inj hetu_center_iff p]
  have "updatePoint modeRef (generateGalaxyMap generateHeTuPoints)
          (generateHelixMap generateHeTuPoints) t b p \<noteq> None" for modeRef t b
    by (rule updatePoint_defined) (use g h in auto)
  then show "(\<exists>c. generateGalaxyMap generateHeTuPoints (pid p) = Some c
        \<and> cfg_type c = (if pgroup p = center then (if polarity p = YANG then CORE else RING) else ARM))
   \<and> (\<exists>c. generateHelixMap generateHeTuPoints (pid p) = Some c
        \<and> cfg_type c = (if pgroup p = center then (if polarity p = YANG then CORE else RING) else ARM))
   \<and> (\<forall>modeRef t b. updatePoint modeRef (generateGalaxyMap generateHeTuPoints)
          (generateHelixMap generateHeTuPoints) t b p \<noteq> None)"
    using g h by blast
qed

theorem every_catalog_point_has_configs_witness:
  "createPoint ''center-10-top-0'' ((real 0 - 2) * SPACING) CENTER_ROW_Y Z_CENTER YIN center 10
      \<in> set generateHeTuPoints
   \<and> (\<exists>c. generateGalaxyMap generateHeTuPoints ''center-10-top-0'' = Some c \<and> cfg_type c = RING)
   \<and> (\<exists>c. generateHelixMap generateHeTuPoints ''center-10-top-0'' = Some c \<and> cfg_type c = RING)
   \<and> createPoint ''heaven-1-0'' 0 BOTTOM_Y Z_HEAVEN YANG north 1 \<in> set generateHeTuPoints
   \<and> (\<exists>c. generateGalaxyMap generateHeTuPoints ''heaven-1-0'' = Some c \<and> cfg_type c = ARM)
   \<and> (\<exists>c. generateHelixMap generateHeTuPoints ''heaven-1-0'' = Some c \<and> cfg_type c = ARM)"
proof -
  have a: "createPoint ''center-10-top-0'' ((real 0 - 2) * SPACING) CENTER_ROW_Y Z_CENTER YIN center 10
      \<in> set generateHeTuPoints"
    by (simp add: generateHeTuPoints_def upt_small showNat_small)
  have b: "createPoint ''heaven-1-0'' 0 BOTTOM_Y Z_HEAVEN YANG north 1 \<in> set generateHeTuPoints"
    by (simp add: generateHeTuPoints_def)
  show ?thesis
    using every_catalog_point_has_configs [rule_format, OF a]
      every_catalog_point_has_configs [rule_format, OF b] a b
    by (simp add: createPoint_def)
qed


section \<open>Legs of the Lo Shu energy path\<close>

text \<open>
  What the path generator does on a single leg, for a positive radius scale and a
  fraction in \<open>[0, 1]\<close>: a leg with the centre at either end is the straight
  interpolation of its end positions (\<open>center_leg_linear\<close>); a sample of a leg between
  two surface anchors, when it is a number at all, lies at distance
  \<open>SPHERE_RADIUS * radiusScale\<close> from the origin (\<open>surface_leg_on_sphere\<close>); and it fails
  to be a number exactly when the two anchor directions are opposite
  (\<open>legSample_None_iff\<close>), where the angle is \<open>pi\<close>, too large for the small-angle
  fallback, and the weights divide by \<open>sin pi = 0\<close>.
\<close>

lemma lengthSq_nonneg: "0 \<le> lengthSq v"
  by (cases v) (simp add: lengthSq_def)

lemma lengthSq_multiplyScalar: "lengthSq (multiplyScalar v s) = s * s * lengthSq v"
  by (cases v) (simp add: lengthSq_def multiplyScalar_def algebra_simps)

lemma vlength_multiplyScalar: "vlength (multiplyScalar v s) = \<bar>s\<bar> * vlength v"
  by (simp add: vlength_def lengthSq_multiplyScalar real_sqrt_mult)

lemma vlength_zero_iff: "vlength v = 0 \<longleftrightarrow> lengthSq v = 0"
  by (simp add: vlength_def)

lemma vlength_normalize: "lengthSq v \<noteq> 0 \<Longrightarrow> vlength (normalizeV v) = 1"
proof -
  assume nz: "lengthSq v \<noteq> 0"
  then have pos: "0 < vlength v"
    using lengthSq_nonneg [of v] by (simp add: vlength_def)
  then show ?thesis
    by (simp add: normalizeV_def vlength_multiplyScalar)
qed

lemma lengthSq_normalize: "lengthSq v \<noteq> 0 \<Longrightarrow> lengthSq (normalizeV v) = 1"
proof -
  assume "lengthSq v \<noteq> 0"
  then have "vlength (normalizeV v) = 1" by (rule vlength_normalize)
  then have "sqrt (lengthSq (normalizeV v)) = sqrt 1" by (simp add: vlength_def)
  then show ?thesis using real_sqrt_eq_iff by blast
qed

lemma multiplyScalar_assoc: "multiplyScalar (multiplyScalar v s) u = multiplyScalar v (s * u)"
  by (cases v) (simp add: multiplyScalar_def algebra_simps)

lemma normalize_multiplyScalar:
  assumes "0 < s" "lengthSq v \<noteq> 0"
  shows "normalizeV (multiplyScalar v s) = normalizeV v"
proof -
  have pos: "0 < vlength v"
    using assms(2) lengthSq_nonneg [of v] by (simp add: vlength_def)
  have "vlength (multiplyScalar v s) = s * vlength v"
    using assms(1) by (simp add: vlength_multiplyScalar)
  then show ?thesis
    using pos assms(1) by (simp add: normalizeV_def multiplyScalar_assoc)
qed

lemma normalize_pole: "0 < c \<Longrightarrow> normalizeV (0, c, 0) = (0, 1, 0)" "0 < c \<Longrightarrow> normalizeV (0, - c, 0) = (0, - 1, 0)"
  by (simp_all add: normalizeV_def vlength_def lengthSq_def multiplyScalar_def)

lemma antipodal_leg_sample:
  "legSample 1.15 (0, R, 0) (0, - R, 0) (32 / 64) = None"
proof -
  have Rpos: "0 < R" by (simp add: R_def SPHERE_RADIUS_def)
  have l1: "lengthSq (0, R, 0) = 324" "lengthSq (0, - R, 0) = 324"
    by (simp_all add: lengthSq_def R_def SPHERE_RADIUS_def)
  have s: "(0::real) < SPHERE_RADIUS * 1.15" by (simp add: SPHERE_RADIUS_def)
  have g1: "getPos 1.15 (0, R, 0) = multiplyScalar (0, 1, 0) (SPHERE_RADIUS * 1.15)"
    by (simp add: getPos_def l1 normalize_pole Rpos)
  have g2: "getPos 1.15 (0, - R, 0) = multiplyScalar (0, - 1, 0) (SPHERE_RADIUS * 1.15)"
    by (simp add: getPos_def l1 normalize_pole Rpos)
  have n1: "normalizeV (getPos 1.15 (0, R, 0)) = (0, 1, 0)"
    unfolding g1 using normalize_multiplyScalar [OF s, of "(0, 1, 0)"] normalize_pole(1) [of 1]
    by (simp add: lengthSq_def)
  have n2: "normalizeV (getPos 1.15 (0, - R, 0)) = (0, - 1, 0)"
    unfolding g2 using normalize_multiplyScalar [OF s, of "(0, - 1, 0)"] normalize_pole(2) [of 1]
    by (simp add: lengthSq_def)
  have pi_big: "\<not> \<bar>pi\<bar> < 1 / 10000"
    using pi_gt_zero pi_ge_two by linarith
  show ?thesis
    unfolding legSample_def Let_def n1 n2 l1
    using pi_big by (simp add: vdot_def)
qed

lemma lengthSq_combination:
  "lengthSq (vadd (multiplyScalar n1 a) (multiplyScalar n2 b))
     = a * a * lengthSq n1 + b * b * lengthSq n2 + 2 * a * b * vdot n1 n2"
  by (cases n1, cases n2) (simp add: lengthSq_def vadd_def multiplyScalar_def vdot_def algebra_simps)

lemma lerp_combination:
  "lerp n1 n2 t = vadd (multiplyScalar n1 (1 - t)) (multiplyScalar n2 t)"
  by (cases n1, cases n2) (simp add: lerp_def vadd_def multiplyScalar_def algebra_simps)

lemma unit_dot_bounds:
  assumes "lengthSq n1 = 1" "lengthSq n2 = 1"
  shows "- 1 \<le> vdot n1 n2" "vdot n1 n2 \<le> 1"
proof -
  have "0 \<le> lengthSq (vadd (multiplyScalar n1 1) (multiplyScalar n2 1))"
    by (rule lengthSq_nonneg)
  then show "- 1 \<le> vdot n1 n2"
    unfolding lengthSq_combination using assms by simp
  have "0 \<le> lengthSq (vadd (multiplyScalar n1 1) (multiplyScalar n2 (- 1)))"
    by (rule lengthSq_nonneg)
  then show "vdot n1 n2 \<le> 1"
    unfolding lengthSq_combination using assms by simp
qed

lemma combination_nonzero:
  assumes "lengthSq n1 = 1" "lengthSq n2 = 1" "(vdot n1 n2)\<^sup>2 < 1" "a \<noteq> 0 \<or> b \<noteq> 0"
  shows "lengthSq (vadd (multiplyScalar n1 a) (multiplyScalar n2 b)) \<noteq> 0"
proof -
  let ?d = "vdot n1 n2"
  have eq: "lengthSq (vadd (multiplyScalar n1 a) (multiplyScalar n2 b))
      = (a + ?d * b)\<^sup>2 + (1 - ?d\<^sup>2) * b\<^sup>2"
    unfolding lengthSq_combination using assms(1,2)
    by (simp add: power2_eq_square algebra_simps)
  show ?thesis
  proof (cases "b = 0")
    case True
    then have "a \<noteq> 0" using assms(4) by simp
    then show ?thesis unfolding eq using True by simp
  next
    case False
    then have "0 < (1 - ?d\<^sup>2) * b\<^sup>2" using assms(3) by simp
    moreover have "0 \<le> (a + ?d * b)\<^sup>2" by simp
    ultimately show ?thesis unfolding eq by linarith
  qed
qed

lemma getPos_surface:
  assumes "0 < radiusScale" "\<not> lengthSq a < 0.1"
  shows "lengthSq (normalizeV (getPos radiusScale a)) = 1"
proof -
  have nz: "lengthSq a \<noteq> 0" using assms(2) by auto
  have s: "0 < SPHERE_RADIUS * radiusScale" using assms(1) by (simp add: SPHERE_RADIUS_def)
  have "normalizeV (getPos radiusScale a) = normalizeV (normalizeV a)"
    using assms(2) normalize_multiplyScalar [OF s, of "normalizeV a"] lengthSq_normalize [OF nz]
    by (simp add: getPos_def)
  then show ?thesis
    using lengthSq_normalize [OF nz] lengthSq_normalize [of "normalizeV a"] by simp
qed

lemma on_sphere:
  assumes "0 < radiusScale" "lengthSq w \<noteq> 0"
  shows "vlength (multiplyScalar (normalizeV w) (SPHERE_RADIUS * radiusScale))
     = SPHERE_RADIUS * radiusScale"
proof -
  have s: "0 < SPHERE_RADIUS * radiusScale" using assms(1) by (simp add: SPHERE_RADIUS_def)
  show ?thesis
    using s vlength_normalize [OF assms(2)] by (simp add: vlength_multiplyScalar)
qed

lemma surface_leg_on_sphere:
  assumes scale: "0 < radiusScale"
    and a: "\<not> lengthSq a < 0.1" and b: "\<not> lengthSq b < 0.1"
    and t: "0 \<le> t" "t \<le> 1"
    and some: "legSample radiusScale a b t = Some v"
  shows "vlength v = SPHERE_RADIUS * radiusScale"
proof -
  let ?n1 = "normalizeV (getPos radiusScale a)"
  let ?n2 = "normalizeV (getPos radiusScale b)"
  let ?d = "vdot ?n1 ?n2"
  let ?th = "arccos ?d"
  have u1: "lengthSq ?n1 = 1" by (rule getPos_surface [OF scale a])
  have u2: "lengthSq ?n2 = 1" by (rule getPos_surface [OF scale b])
  have d: "- 1 \<le> ?d" "?d \<le> 1" using unit_dot_bounds [OF u1 u2] by auto
  then have clamp: "max (- 1) (min 1 ?d) = ?d" by simp
  have th: "0 \<le> ?th" "?th \<le> pi" "cos ?th = ?d"
    using d by (simp_all add: arccos_lbound arccos_ubound)
  show ?thesis
  proof (cases "\<bar>?th\<bar> < 0.0001")
    case True
    then have v: "v = multiplyScalar (normalizeV (lerp ?n1 ?n2 t)) (SPHERE_RADIUS * radiusScale)"
      using some a b by (simp add: legSample_def Let_def clamp)
    have "?th < 1" using True by simp
    then have "?th < pi / 2" using pi_ge_two by linarith
    then have "0 < cos ?th" using th(1) by (intro cos_gt_zero_pi) linarith+
    then have dpos: "0 < ?d" using th(3) by simp
    then have "?d\<^sup>2 < 1 \<or> ?d = 1" using d(2)
      by (metis abs_of_pos less_eq_real_def one_power2 power2_eq_1_iff power_strict_mono
          zero_less_numeral zero_le_one abs_square_less_1)
    then have "lengthSq (lerp ?n1 ?n2 t) \<noteq> 0"
    proof
      assume "?d\<^sup>2 < 1"
      moreover have "1 - t \<noteq> 0 \<or> t \<noteq> 0" by auto
      ultimately show ?thesis
        unfolding lerp_combination by (rule combination_nonzero [OF u1 u2])
    next
      assume "?d = 1"
      then show ?thesis
        unfolding lerp_combination lengthSq_combination using u1 u2
        by (simp add: algebra_simps)
    qed
    then show ?thesis unfolding v by (rule on_sphere [OF scale])
  next
    case False
    then have sn: "sin ?th \<noteq> 0"
      using some a b by (auto simp: legSample_def Let_def clamp split: if_splits)
    let ?w1 = "sin ((1 - t) * ?th) / sin ?th"
    let ?w2 = "sin (t * ?th) / sin ?th"
    have v: "v = multiplyScalar (normalizeV (vadd (multiplyScalar ?n1 ?w1) (multiplyScalar ?n2 ?w2)))
        (SPHERE_RADIUS * radiusScale)"
      using some a b False sn by (simp add: legSample_def Let_def clamp)
    have thpos: "0 < ?th" using False th(1) by simp
    have thlt: "?th < pi"
    proof (rule ccontr)
      assume "\<not> ?th < pi"
      then have "?th = pi" using th(2) by simp
      then show False using sn by simp
    qed
    have e: "(cos ?th)\<^sup>2 + (sin ?th)\<^sup>2 = 1" by simp
    have p: "0 < (sin ?th)\<^sup>2" using sn by simp
    have d2: "?d\<^sup>2 < 1" using e p unfolding th(3) by linarith
    have w: "?w1 \<noteq> 0 \<or> ?w2 \<noteq> 0"
    proof (cases "t = 0")
      case True
      then show ?thesis using sn by simp
    next
      case False
      then have "0 < t * ?th" using t(1) thpos by simp
      moreover have "t * ?th < pi"
      proof -
        have "t * ?th \<le> 1 * ?th" using t(2) th(1) by (intro mult_right_mono) auto
        then show ?thesis using thlt by simp
      qed
      ultimately have "0 < sin (t * ?th)" by (rule sin_gt_zero)
      then show ?thesis using sn by simp
    qed
    have "lengthSq (vadd (multiplyScalar ?n1 ?w1) (multiplyScalar ?n2 ?w2)) \<noteq> 0"
      by (rule combination_nonzero [OF u1 u2 d2 w])
    then show ?thesis unfolding v by (rule on_sphere [OF scale])
  qed
qed

lemma center_leg_linear:
  assumes "lengthSq a < 0.1 \<or> lengthSq b < 0.1"
  shows "legSample radiusScale a b t = Some (lerp (getPos radiusScale a) (getPos radiusScale b) t)"
  using assms by (auto simp: legSample_def Let_def)

lemma legSample_None_iff:
  assumes scale: "0 < radiusScale"
  shows "legSample radiusScale a b t = None \<longleftrightarrow>
     \<not> lengthSq a < 0.1 \<and> \<not> lengthSq b < 0.1
     \<and> vdot (normalizeV (getPos radiusScale a)) (normalizeV (getPos radiusScale b)) = - 1"
proof (cases "lengthSq a < 0.1 \<or> lengthSq b < 0.1")
  case True
  then show ?thesis using center_leg_linear [OF True] by auto
next
  case False
  then have a: "\<not> lengthSq a < 0.1" and b: "\<not> lengthSq b < 0.1" by auto
  let ?d = "vdot (normalizeV (getPos radiusScale a)) (normalizeV (getPos radiusScale b))"
  let ?th = "arccos ?d"
  have u1: "lengthSq (normalizeV (getPos radiusScale a)) = 1" by (rule getPos_surface [OF scale a])
  have u2: "lengthSq (normalizeV (getPos radiusScale b)) = 1" by (rule getPos_surface [OF scale b])
  have d: "- 1 \<le> ?d" "?d \<le> 1" using unit_dot_bounds [OF u1 u2] by auto
  then have clamp: "max (- 1) (min 1 ?d) = ?d" by simp
  have th: "0 \<le> ?th" "?th \<le> pi" "cos ?th = ?d"
    using d by (simp_all add: arccos_lbound arccos_ubound)
  have none: "legSample radiusScale a b t = None \<longleftrightarrow> \<not> \<bar>?th\<bar> < 0.0001 \<and> sin ?th = 0"
    using a b by (simp add: legSample_def Let_def clamp)
  show ?thesis
  proof
    assume "legSample radiusScale a b t = None"
    then have big: "\<not> \<bar>?th\<bar> < 0.0001" and s0: "sin ?th = 0" using none by auto
    have "?th = pi"
    proof (rule ccontr)
      assume "?th \<noteq> pi"
      then have "?th < pi" using th(2) by simp
      moreover have "0 < ?th" using big th(1) by simp
      ultimately have "0 < sin ?th" by (intro sin_gt_zero)
      then show False using s0 by simp
    qed
    then have "?d = - 1" using th(3) by (metis cos_pi)
    then show "\<not> lengthSq a < 0.1 \<and> \<not> lengthSq b < 0.1 \<and> ?d = - 1" using a b by simp
  next
    assume "\<not> lengthSq a < 0.1 \<and> \<not> lengthSq b < 0.1 \<and> ?d = - 1"
    then have "?th = pi" by simp
    moreover have "\<not> \<bar>pi\<bar> < 0.0001" using pi_ge_two by simp
    ultimately show "legSample radiusScale a b t = None" using none by simp
  qed
qed

lemma concat_nth_uniform:
  assumes "\<forall>xs \<in> set xss. length xs = n" "i < length xss" "j < n"
  shows "concat xss ! (i * n + j) = xss ! i ! j"
  using assms
proof (induction xss arbitrary: i)
  case Nil then show ?case by simp
next
  case (Cons xs xss)
  have len: "length xs = n" using Cons.prems(1) by simp
  show ?case
  proof (cases i)
    case 0
    then show ?thesis using len Cons.prems(3) by (simp add: nth_append)
  next
    case (Suc k)
    then have "concat xss ! (k * n + j) = xss ! k ! j"
      using Cons.IH [of k] Cons.prems by simp
    then show ?thesis using Suc len by (simp add: nth_append)
  qed
qed

text \<open>
  Claim C9, at the input where the code departs from it.  The default call
  \<open>generateLoShuEnergyPath()\<close> (sequence 1, 2, ..., 9, 1, radius scale 1.15, 64 segments
  per leg) returns 577 samples.  Its last leg runs from anchor 9, the pole \<open>(0, R, 0)\<close>, to
  anchor 1, the opposite pole \<open>(0, - R, 0)\<close>: two surface anchors.  The sample at index
  \<open>544 = 8 * 64 + 32\<close> is that leg's sample at \<open>t = 1/2\<close>, and it is not a point at distance
  \<open>SPHERE_RADIUS * radiusScale\<close>: the weights \<open>w1\<close> and \<open>w2\<close> are quotients by \<open>sin pi\<close>.
\<close>

theorem default_path_antipodal_leg:
  "\<exists>path. generateLoShuEnergyPath [1, 2, 3, 4, 5, 6, 7, 8, 9, 1] 1.15 64 = Some path
     \<and> length path = 577 \<and> path ! 544 = None"
proof -
  define legs where "legs = map (\<lambda>(startAnchor, endAnchor).
        map (\<lambda>j. legSample 1.15 startAnchor endAnchor (real j / real 64)) [0..<64])
      [((0, - R, 0), (D, D, D)), ((D, D, D), (- D_CROSS, 0, - D_CROSS)),
       ((- D_CROSS, 0, - D_CROSS), (- D, D, - D)), ((- D, D, - D), (0, 0, 0)),
       ((0, 0, 0), (D, - D, D)), ((D, - D, D), (D_CROSS, 0, D_CROSS)),
       ((D_CROSS, 0, D_CROSS), (- D, - D, - D)), ((- D, - D, - D), (0, R, 0)),
       ((0, R, 0), (0, - R, 0))]"
  have path: "generateLoShuEnergyPath [1, 2, 3, 4, 5, 6, 7, 8, 9, 1] 1.15 64
      = Some (concat legs @ [Some (getPos 1.15 (0, - R, 0))])"
    by (simp add: generateLoShuEnergyPath_def LOSHU_ANCHORS_def legs_def)
  have each: "\<forall>xs \<in> set legs. length xs = 64" by (simp add: legs_def)
  have n: "length legs = 9" by (simp add: legs_def)
  have total: "length (concat legs) = 576"
    by (simp add: legs_def)
  have "concat legs ! (8 * 64 + 32) = legs ! 8 ! 32"
    by (rule concat_nth_uniform [OF each]) (simp_all add: n)
  also have "\<dots> = legSample 1.15 (0, R, 0) (0, - R, 0) (32 / 64)"
    by (simp add: legs_def)
  finally have "concat legs ! 544 = None"
    using antipodal_leg_sample by simp
  then have "(concat legs @ [Some (getPos 1.15 (0, - R, 0))]) ! 544 = None"
    using total by (simp add: nth_append)
  then show ?thesis using path total by simp
qed


end
